theory Spec2Isabelle
  imports Complex_Main
begin

section \<open>The storage schemas\<close>

text \<open>
  The repository declares its store twice, as two SQLite schemas: the original variant
  (tables \<open>"Table"\<close>, \<open>TableSet\<close>, \<open>TableInTableSet\<close>, \<open>Customer\<close>, \<open>Reservation\<close>,
  \<open>Layout\<close>, \<open>Section\<close>, \<open>SectionInLayout\<close>, \<open>TableInSection\<close>, \<open>TableSetInSection\<close>) and
  the refined variant (\<open>Customer\<close>, \<open>Reservation\<close>, \<open>_Table\<close>, \<open>Layout\<close>, \<open>Section\<close>,
  \<open>ReservationAtTable\<close>, \<open>SectionInLayout\<close>, \<open>TableInSection\<close>). Both start with
  \<open>PRAGMA foreign_keys = ON\<close>, so foreign keys are enforced.

  A table is the list of its rows in insertion order. A column declared \<open>NOT NULL\<close> (or
  \<open>INTEGER PRIMARY KEY\<close>, given explicitly) has the type of its values, a nullable column is
  an \<open>option\<close>. \<open>INTEGER\<close> is \<open>int\<close>, \<open>TEXT\<close> is \<open>string\<close>, \<open>REAL\<close> is \<open>real\<close>: the
  geometry constraint only compares coordinates, and the order of finite floating-point
  numbers is the order of the reals they denote.

  An \<open>INSERT\<close> either stores the row or fails with a constraint it violates. SQLite
  checks \<open>CHECK\<close> constraints first, then the keys, and the foreign keys at the end of the
  statement; among the keys of one table the model takes the primary key first and the
  \<open>UNIQUE\<close> constraints in the order of their declaration. Whether an \<open>INSERT\<close> fails does
  not depend on that order, only which error a row reports that violates several keys at
  once. Only \<open>INSERT\<close> is modelled: the claims are about creating rows.
\<close>

datatype db_error =
    CheckViolation
  | PrimaryKeyViolation
  | UniqueViolation
  | ForeignKeyViolation

subsection \<open>The \<open>GLOB\<close> operator\<close>

text \<open>
  \<open>GLOB\<close> is SQLite's case-sensitive pattern match: \<open>*\<close> stands for any run of
  characters, \<open>?\<close> for one character, \<open>[...]\<close> for one character of a set (single
  characters and ranges \<open>a-z\<close>, inverted by a leading \<open>^\<close>, a \<open>]\<close> right after the opening
  being a member), and every other character, \<open>#\<close> included, for itself. A set that is never
  closed matches nothing.
\<close>

datatype glob_tok =
    Star
  | AnyChar
  | CharSet bool "(char \<times> char) list"
  | Lit char

text \<open>The members of a set, read up to the closing bracket; \<open>prior\<close> is the single
  character read last, which a following \<open>-\<close> turns into the lower end of a range.\<close>

fun glob_set_items ::
  "string \<Rightarrow> char option \<Rightarrow> (char \<times> char) list \<Rightarrow> ((char \<times> char) list \<times> string) option"
where
  "glob_set_items [] prior acc = None"
| "glob_set_items [c2] prior acc =
     (if c2 = CHR '']'' then Some (acc, []) else None)"
| "glob_set_items (c2 # n # p) prior acc =
     (if c2 = CHR '']'' then Some (acc, n # p)
      else if c2 = CHR ''-'' \<and> n \<noteq> CHR '']'' then
        (case prior of
           Some lo \<Rightarrow> glob_set_items p None (acc @ [(lo, n)])
         | None \<Rightarrow> glob_set_items (n # p) (Some c2) (acc @ [(c2, c2)]))
      else glob_set_items (n # p) (Some c2) (acc @ [(c2, c2)]))"

text \<open>A set, read from the character after the opening bracket.\<close>

fun glob_set :: "string \<Rightarrow> (glob_tok \<times> string) option" where
  "glob_set p =
     (let invert = (p \<noteq> [] \<and> hd p = CHR ''^'');
          p1 = (if invert then tl p else p);
          lead = (p1 \<noteq> [] \<and> hd p1 = CHR '']'');
          p2 = (if lead then tl p1 else p1);
          acc = (if lead then [(CHR '']'', CHR '']'')] else [])
      in case glob_set_items p2 None acc of
           None \<Rightarrow> None
         | Some (items, rest) \<Rightarrow> Some (CharSet invert items, rest))"

lemma glob_set_items_shorter:
  "glob_set_items p prior acc = Some (items, rest) \<Longrightarrow> length rest < length p"
  by (induction p prior acc rule: glob_set_items.induct)
     (auto split: if_splits option.splits)

lemma glob_set_shorter:
  "glob_set p = Some (tok, rest) \<Longrightarrow> length rest \<le> length p"
  by (auto simp: Let_def split: option.splits if_splits
           dest!: glob_set_items_shorter)

function glob_tokens :: "string \<Rightarrow> glob_tok list option" where
  "glob_tokens [] = Some []"
| "glob_tokens (c # p) =
     (if c = CHR ''*'' then map_option ((#) Star) (glob_tokens p)
      else if c = CHR ''?'' then map_option ((#) AnyChar) (glob_tokens p)
      else if c = CHR ''['' then
        (case glob_set p of
           None \<Rightarrow> None
         | Some (tok, rest) \<Rightarrow> map_option ((#) tok) (glob_tokens rest))
      else map_option ((#) (Lit c)) (glob_tokens p))"
  by pat_completeness auto
termination
proof (relation "measure length")
  fix c :: char and p :: string and x2 :: "glob_tok \<times> string" and tok rest
  assume "glob_set p = Some x2" and "(tok, rest) = x2"
  then have "length rest \<le> length p"
    using glob_set_shorter [of p tok rest] by simp
  then show "(rest, c # p) \<in> measure length" by simp
qed auto

definition in_items :: "char \<Rightarrow> (char \<times> char) list \<Rightarrow> bool" where
  "in_items c items =
     list_ex (\<lambda>(lo, hi). (of_char lo :: nat) \<le> of_char c \<and> (of_char c :: nat) \<le> of_char hi) items"

fun glob_match :: "glob_tok list \<Rightarrow> string \<Rightarrow> bool" where
  "glob_match [] s = (s = [])"
| "glob_match (Star # ts) [] = glob_match ts []"
| "glob_match (Star # ts) (c # s) = (glob_match ts (c # s) \<or> glob_match (Star # ts) s)"
| "glob_match (AnyChar # ts) [] = False"
| "glob_match (AnyChar # ts) (c # s) = glob_match ts s"
| "glob_match (CharSet invert items # ts) [] = False"
| "glob_match (CharSet invert items # ts) (c # s) = ((in_items c items \<noteq> invert) \<and> glob_match ts s)"
| "glob_match (Lit x # ts) [] = False"
| "glob_match (Lit x # ts) (c # s) = (c = x \<and> glob_match ts s)"

definition GLOB :: "string \<Rightarrow> string \<Rightarrow> bool" where
  "GLOB s pat = (case glob_tokens pat of None \<Rightarrow> False | Some ts \<Rightarrow> glob_match ts s)"

subsection \<open>Rows\<close>

text \<open>\<open>"Table"\<close> in the original variant, \<open>_Table\<close> in the refined one; the two
  declarations are the same column for column.\<close>

record table_row =
  table_number :: int
  default_chairs :: int
  max_chairs :: int
  tl_x :: real
  tl_y :: real
  tr_x :: real
  tr_y :: real
  bl_x :: real
  bl_y :: real
  br_x :: real
  br_y :: real

record tableset_row =
  table_set_id :: int
  combined_default_chairs :: int
  combined_max_chairs :: int

record table_in_tableset_row =
  tits_table_number :: int
  tits_table_set_id :: int

record customer_row =
  customer_id :: int
  first_name :: string
  last_name :: string
  phone_number :: string
  email :: "string option"

text \<open>\<open>Reservation\<close> of the refined variant; the original variant has one more column,
  the nullable \<open>table_set_id\<close>.\<close>

record reservation_row =
  reservation_id :: int
  res_customer_id :: int
  num_people :: int
  reservation_datetime :: string
  date_created :: string
  num_highchairs :: "int option"
  res_notes :: "string option"

record reservation_row_original = reservation_row +
  res_table_set_id :: "int option"

record layout_row =
  layout_id :: int
  layout_common_name :: "string option"

record section_row =
  section_id :: int
  section_common_name :: "string option"

record section_in_layout_row =
  sil_section_id :: int
  sil_layout_id :: int
  sil_section_number :: int
  server_name :: "string option"

record table_in_section_row =
  tis_table_number :: int
  tis_layout_id :: int
  tis_section_number :: int

record tableset_in_section_row =
  tsis_table_set_id :: int
  tsis_layout_id :: int
  tsis_section_number :: int

record reservation_at_table_row =
  rat_reservation_id :: int
  rat_reservation_datetime :: string
  rat_table_number :: int

subsection \<open>\<open>CHECK\<close> constraints\<close>

text \<open>The geometry constraint of \<open>"Table"\<close> and \<open>_Table\<close>, as both files write it:
  \<^verbatim>\<open>CHECK(tl_x < tr_x AND bl_x < br_y AND tl_y > bl_y AND tr_y > br_y)\<close>.\<close>

definition Table_CHECK :: "table_row \<Rightarrow> bool" where
  "Table_CHECK r =
     (tl_x r < tr_x r
      \<and> bl_x r < br_y r
      \<and> tl_y r > bl_y r
      \<and> tr_y r > br_y r)"

definition Customer_CHECK :: "customer_row \<Rightarrow> bool" where
  "Customer_CHECK r =
     (length (phone_number r) = 14
      \<and> GLOB (phone_number r) ''([0-9][0-9][0-9]) [0-9][0-9][0-9]-[0-9][0-9][0-9][0-9]'')"

text \<open>The date-time patterns of \<open>Reservation\<close>: the original variant's and the refined
  variant's.\<close>

definition datetime_glob_original :: string where
  "datetime_glob_original = ''####-##-## ##:##:##''"

definition datetime_glob_refined :: string where
  "datetime_glob_refined =
     ''[0-9][0-9][0-9][0-9]-[0-9][0-9]-[0-9][0-9] [0-9][0-9]:[0-9][0-9]:[0-9][0-9]''"

definition Reservation_CHECK_original :: "'a reservation_row_scheme \<Rightarrow> bool" where
  "Reservation_CHECK_original r =
     (GLOB (reservation_datetime r) datetime_glob_original
      \<and> GLOB (date_created r) datetime_glob_original)"

definition Reservation_CHECK_refined :: "'a reservation_row_scheme \<Rightarrow> bool" where
  "Reservation_CHECK_refined r =
     (GLOB (reservation_datetime r) datetime_glob_refined
      \<and> GLOB (date_created r) datetime_glob_refined)"

subsection \<open>Keys\<close>

text \<open>Each table's constraints, as the first error an \<open>INSERT\<close> of row \<open>r\<close> meets on a
  table holding \<open>rows\<close> (\<open>None\<close>: the row is accepted). The parent keys a foreign key
  refers to are arguments.\<close>

definition Table_violation :: "table_row list \<Rightarrow> table_row \<Rightarrow> db_error option" where
  "Table_violation rows r =
     (if \<not> Table_CHECK r then Some CheckViolation
      else if table_number r \<in> set (map table_number rows) then Some PrimaryKeyViolation
      else None)"

definition TableSet_violation :: "tableset_row list \<Rightarrow> tableset_row \<Rightarrow> db_error option" where
  "TableSet_violation rows r =
     (if table_set_id r \<in> set (map table_set_id rows) then Some PrimaryKeyViolation
      else None)"

definition TableInTableSet_violation ::
  "int list \<Rightarrow> int list \<Rightarrow> table_in_tableset_row list \<Rightarrow> table_in_tableset_row \<Rightarrow> db_error option"
where
  "TableInTableSet_violation tableset_ids table_numbers rows r =
     (if (tits_table_number r, tits_table_set_id r)
           \<in> set (map (\<lambda>x. (tits_table_number x, tits_table_set_id x)) rows)
      then Some PrimaryKeyViolation
      else if tits_table_set_id r \<notin> set tableset_ids then Some ForeignKeyViolation
      else if tits_table_number r \<notin> set table_numbers then Some ForeignKeyViolation
      else None)"

text \<open>\<open>UNIQUE (first_name, last_name, phone_number)\<close>\<close>

definition customer_key :: "customer_row \<Rightarrow> string \<times> string \<times> string" where
  "customer_key r = (first_name r, last_name r, phone_number r)"

definition Customer_violation :: "customer_row list \<Rightarrow> customer_row \<Rightarrow> db_error option" where
  "Customer_violation rows r =
     (if \<not> Customer_CHECK r then Some CheckViolation
      else if customer_id r \<in> set (map customer_id rows) then Some PrimaryKeyViolation
      else if customer_key r \<in> set (map customer_key rows) then Some UniqueViolation
      else None)"

text \<open>\<open>UNIQUE (customer_id, reservation_datetime)\<close>\<close>

definition booking_key :: "'a reservation_row_scheme \<Rightarrow> int \<times> string" where
  "booking_key r = (res_customer_id r, reservation_datetime r)"

text \<open>\<open>UNIQUE (reservation_id, reservation_datetime)\<close>, the target of
  \<open>ReservationAtTable\<close>'s foreign key\<close>

definition reservation_key :: "'a reservation_row_scheme \<Rightarrow> int \<times> string" where
  "reservation_key r = (reservation_id r, reservation_datetime r)"

definition Reservation_violation_original ::
  "int list \<Rightarrow> int list \<Rightarrow> reservation_row_original list \<Rightarrow> reservation_row_original
     \<Rightarrow> db_error option"
where
  "Reservation_violation_original customer_ids tableset_ids rows r =
     (if \<not> Reservation_CHECK_original r then Some CheckViolation
      else if reservation_id r \<in> set (map reservation_id rows) then Some PrimaryKeyViolation
      else if booking_key r \<in> set (map booking_key rows) then Some UniqueViolation
      else if res_customer_id r \<notin> set customer_ids then Some ForeignKeyViolation
      else if (case res_table_set_id r of None \<Rightarrow> False | Some t \<Rightarrow> t \<notin> set tableset_ids)
        then Some ForeignKeyViolation
      else None)"

definition Reservation_violation_refined ::
  "int list \<Rightarrow> reservation_row list \<Rightarrow> reservation_row \<Rightarrow> db_error option"
where
  "Reservation_violation_refined customer_ids rows r =
     (if \<not> Reservation_CHECK_refined r then Some CheckViolation
      else if reservation_id r \<in> set (map reservation_id rows) then Some PrimaryKeyViolation
      else if booking_key r \<in> set (map booking_key rows) then Some UniqueViolation
      else if reservation_key r \<in> set (map reservation_key rows) then Some UniqueViolation
      else if res_customer_id r \<notin> set customer_ids then Some ForeignKeyViolation
      else None)"

definition Layout_violation :: "layout_row list \<Rightarrow> layout_row \<Rightarrow> db_error option" where
  "Layout_violation rows r =
     (if layout_id r \<in> set (map layout_id rows) then Some PrimaryKeyViolation else None)"

definition Section_violation :: "section_row list \<Rightarrow> section_row \<Rightarrow> db_error option" where
  "Section_violation rows r =
     (if section_id r \<in> set (map section_id rows) then Some PrimaryKeyViolation else None)"

text \<open>\<open>UNIQUE (layout_id, section_number)\<close>, the slot that \<open>TableInSection\<close> and
  \<open>TableSetInSection\<close> refer to\<close>

definition slot_key :: "section_in_layout_row \<Rightarrow> int \<times> int" where
  "slot_key r = (sil_layout_id r, sil_section_number r)"

definition SectionInLayout_violation ::
  "int list \<Rightarrow> int list \<Rightarrow> section_in_layout_row list \<Rightarrow> section_in_layout_row \<Rightarrow> db_error option"
where
  "SectionInLayout_violation section_ids layout_ids rows r =
     (if (sil_section_id r, sil_layout_id r)
           \<in> set (map (\<lambda>x. (sil_section_id x, sil_layout_id x)) rows)
      then Some PrimaryKeyViolation
      else if slot_key r \<in> set (map slot_key rows) then Some UniqueViolation
      else if sil_section_id r \<notin> set section_ids then Some ForeignKeyViolation
      else if sil_layout_id r \<notin> set layout_ids then Some ForeignKeyViolation
      else None)"

text \<open>\<open>PRIMARY KEY (table_number, layout_id, section_number)\<close>\<close>

definition placement_key :: "table_in_section_row \<Rightarrow> int \<times> int \<times> int" where
  "placement_key r = (tis_table_number r, tis_layout_id r, tis_section_number r)"

definition TableInSection_violation ::
  "int list \<Rightarrow> (int \<times> int) list \<Rightarrow> table_in_section_row list \<Rightarrow> table_in_section_row
     \<Rightarrow> db_error option"
where
  "TableInSection_violation table_numbers slots rows r =
     (if placement_key r \<in> set (map placement_key rows) then Some PrimaryKeyViolation
      else if tis_table_number r \<notin> set table_numbers then Some ForeignKeyViolation
      else if (tis_layout_id r, tis_section_number r) \<notin> set slots then Some ForeignKeyViolation
      else None)"

definition TableSetInSection_violation ::
  "int list \<Rightarrow> (int \<times> int) list \<Rightarrow> tableset_in_section_row list \<Rightarrow> tableset_in_section_row
     \<Rightarrow> db_error option"
where
  "TableSetInSection_violation tableset_ids slots rows r =
     (if (tsis_table_set_id r, tsis_layout_id r, tsis_section_number r)
           \<in> set (map (\<lambda>x. (tsis_table_set_id x, tsis_layout_id x, tsis_section_number x)) rows)
      then Some PrimaryKeyViolation
      else if tsis_table_set_id r \<notin> set tableset_ids then Some ForeignKeyViolation
      else if (tsis_layout_id r, tsis_section_number r) \<notin> set slots then Some ForeignKeyViolation
      else None)"

text \<open>\<open>PRIMARY KEY (reservation_id, reservation_datetime, table_number)\<close>\<close>

definition assignment_key :: "reservation_at_table_row \<Rightarrow> int \<times> string \<times> int" where
  "assignment_key r = (rat_reservation_id r, rat_reservation_datetime r, rat_table_number r)"

definition ReservationAtTable_violation ::
  "(int \<times> string) list \<Rightarrow> int list \<Rightarrow> reservation_at_table_row list \<Rightarrow> reservation_at_table_row
     \<Rightarrow> db_error option"
where
  "ReservationAtTable_violation reservation_keys table_numbers rows r =
     (if assignment_key r \<in> set (map assignment_key rows) then Some PrimaryKeyViolation
      else if (rat_reservation_id r, rat_reservation_datetime r) \<notin> set reservation_keys
        then Some ForeignKeyViolation
      else if rat_table_number r \<notin> set table_numbers then Some ForeignKeyViolation
      else None)"

subsection \<open>The two databases and their \<open>INSERT\<close> statements\<close>

definition stored :: "db_error option \<Rightarrow> 'db \<Rightarrow> db_error + 'db" where
  "stored violation db' = (case violation of Some e \<Rightarrow> Inl e | None \<Rightarrow> Inr db')"

record original_db =
  o_Table :: "table_row list"
  o_TableSet :: "tableset_row list"
  o_TableInTableSet :: "table_in_tableset_row list"
  o_Customer :: "customer_row list"
  o_Reservation :: "reservation_row_original list"
  o_Layout :: "layout_row list"
  o_Section :: "section_row list"
  o_SectionInLayout :: "section_in_layout_row list"
  o_TableInSection :: "table_in_section_row list"
  o_TableSetInSection :: "tableset_in_section_row list"

definition empty_original :: original_db where
  "empty_original =
     \<lparr>o_Table = [], o_TableSet = [], o_TableInTableSet = [], o_Customer = [],
      o_Reservation = [], o_Layout = [], o_Section = [], o_SectionInLayout = [],
      o_TableInSection = [], o_TableSetInSection = []\<rparr>"

datatype original_insert =
    Original_Table table_row
  | Original_TableSet tableset_row
  | Original_TableInTableSet table_in_tableset_row
  | Original_Customer customer_row
  | Original_Reservation reservation_row_original
  | Original_Layout layout_row
  | Original_Section section_row
  | Original_SectionInLayout section_in_layout_row
  | Original_TableInSection table_in_section_row
  | Original_TableSetInSection tableset_in_section_row

fun insert_original :: "original_db \<Rightarrow> original_insert \<Rightarrow> db_error + original_db" where
  "insert_original db (Original_Table r) =
     stored (Table_violation (o_Table db) r) (db\<lparr>o_Table := o_Table db @ [r]\<rparr>)"
| "insert_original db (Original_TableSet r) =
     stored (TableSet_violation (o_TableSet db) r) (db\<lparr>o_TableSet := o_TableSet db @ [r]\<rparr>)"
| "insert_original db (Original_TableInTableSet r) =
     stored (TableInTableSet_violation (map table_set_id (o_TableSet db))
               (map table_number (o_Table db)) (o_TableInTableSet db) r)
       (db\<lparr>o_TableInTableSet := o_TableInTableSet db @ [r]\<rparr>)"
| "insert_original db (Original_Customer r) =
     stored (Customer_violation (o_Customer db) r) (db\<lparr>o_Customer := o_Customer db @ [r]\<rparr>)"
| "insert_original db (Original_Reservation r) =
     stored (Reservation_violation_original (map customer_id (o_Customer db))
               (map table_set_id (o_TableSet db)) (o_Reservation db) r)
       (db\<lparr>o_Reservation := o_Reservation db @ [r]\<rparr>)"
| "insert_original db (Original_Layout r) =
     stored (Layout_violation (o_Layout db) r) (db\<lparr>o_Layout := o_Layout db @ [r]\<rparr>)"
| "insert_original db (Original_Section r) =
     stored (Section_violation (o_Section db) r) (db\<lparr>o_Section := o_Section db @ [r]\<rparr>)"
| "insert_original db (Original_SectionInLayout r) =
     stored (SectionInLayout_violation (map section_id (o_Section db))
               (map layout_id (o_Layout db)) (o_SectionInLayout db) r)
       (db\<lparr>o_SectionInLayout := o_SectionInLayout db @ [r]\<rparr>)"
| "insert_original db (Original_TableInSection r) =
     stored (TableInSection_violation (map table_number (o_Table db))
               (map slot_key (o_SectionInLayout db)) (o_TableInSection db) r)
       (db\<lparr>o_TableInSection := o_TableInSection db @ [r]\<rparr>)"
| "insert_original db (Original_TableSetInSection r) =
     stored (TableSetInSection_violation (map table_set_id (o_TableSet db))
               (map slot_key (o_SectionInLayout db)) (o_TableSetInSection db) r)
       (db\<lparr>o_TableSetInSection := o_TableSetInSection db @ [r]\<rparr>)"

record refined_db =
  r_Customer :: "customer_row list"
  r_Reservation :: "reservation_row list"
  r_Table :: "table_row list"
  r_Layout :: "layout_row list"
  r_Section :: "section_row list"
  r_ReservationAtTable :: "reservation_at_table_row list"
  r_SectionInLayout :: "section_in_layout_row list"
  r_TableInSection :: "table_in_section_row list"

definition empty_refined :: refined_db where
  "empty_refined =
     \<lparr>r_Customer = [], r_Reservation = [], r_Table = [], r_Layout = [], r_Section = [],
      r_ReservationAtTable = [], r_SectionInLayout = [], r_TableInSection = []\<rparr>"

datatype refined_insert =
    Refined_Customer customer_row
  | Refined_Reservation reservation_row
  | Refined_Table table_row
  | Refined_Layout layout_row
  | Refined_Section section_row
  | Refined_ReservationAtTable reservation_at_table_row
  | Refined_SectionInLayout section_in_layout_row
  | Refined_TableInSection table_in_section_row

fun insert_refined :: "refined_db \<Rightarrow> refined_insert \<Rightarrow> db_error + refined_db" where
  "insert_refined db (Refined_Customer r) =
     stored (Customer_violation (r_Customer db) r) (db\<lparr>r_Customer := r_Customer db @ [r]\<rparr>)"
| "insert_refined db (Refined_Reservation r) =
     stored (Reservation_violation_refined (map customer_id (r_Customer db)) (r_Reservation db) r)
       (db\<lparr>r_Reservation := r_Reservation db @ [r]\<rparr>)"
| "insert_refined db (Refined_Table r) =
     stored (Table_violation (r_Table db) r) (db\<lparr>r_Table := r_Table db @ [r]\<rparr>)"
| "insert_refined db (Refined_Layout r) =
     stored (Layout_violation (r_Layout db) r) (db\<lparr>r_Layout := r_Layout db @ [r]\<rparr>)"
| "insert_refined db (Refined_Section r) =
     stored (Section_violation (r_Section db) r) (db\<lparr>r_Section := r_Section db @ [r]\<rparr>)"
| "insert_refined db (Refined_ReservationAtTable r) =
     stored (ReservationAtTable_violation (map reservation_key (r_Reservation db))
               (map table_number (r_Table db)) (r_ReservationAtTable db) r)
       (db\<lparr>r_ReservationAtTable := r_ReservationAtTable db @ [r]\<rparr>)"
| "insert_refined db (Refined_SectionInLayout r) =
     stored (SectionInLayout_violation (map section_id (r_Section db))
               (map layout_id (r_Layout db)) (r_SectionInLayout db) r)
       (db\<lparr>r_SectionInLayout := r_SectionInLayout db @ [r]\<rparr>)"
| "insert_refined db (Refined_TableInSection r) =
     stored (TableInSection_violation (map table_number (r_Table db))
               (map slot_key (r_SectionInLayout db)) (r_TableInSection db) r)
       (db\<lparr>r_TableInSection := r_TableInSection db @ [r]\<rparr>)"

text \<open>A script of \<open>INSERT\<close>s stops at the first one that fails.\<close>

fun run_original :: "original_db \<Rightarrow> original_insert list \<Rightarrow> db_error + original_db" where
  "run_original db [] = Inr db"
| "run_original db (i # is) =
     (case insert_original db i of Inl e \<Rightarrow> Inl e | Inr db' \<Rightarrow> run_original db' is)"

fun run_refined :: "refined_db \<Rightarrow> refined_insert list \<Rightarrow> db_error + refined_db" where
  "run_refined db [] = Inr db"
| "run_refined db (i # is) =
     (case insert_refined db i of Inl e \<Rightarrow> Inl e | Inr db' \<Rightarrow> run_refined db' is)"

text \<open>The databases that \<open>INSERT\<close>s can build from the empty one.\<close>

inductive reachable_original :: "original_db \<Rightarrow> bool" where
  original_empty: "reachable_original empty_original"
| original_insert:
    "reachable_original db \<Longrightarrow> insert_original db i = Inr db' \<Longrightarrow> reachable_original db'"

inductive reachable_refined :: "refined_db \<Rightarrow> bool" where
  refined_empty: "reachable_refined empty_refined"
| refined_insert:
    "reachable_refined db \<Longrightarrow> insert_refined db i = Inr db' \<Longrightarrow> reachable_refined db'"

section \<open>The date-time utilities\<close>

text \<open>
  JavaScript values, as far as the utilities use them. A string is a \<open>string\<close>. A number is
  an \<open>int option\<close>: every number the code computes is an integer far below \<open>2^53\<close>, where
  double arithmetic is exact, and \<open>None\<close> is \<open>NaN\<close>. An array slot that a destructuring
  finds missing is \<open>undefined\<close>; the code only compares such a value with numbers (\<open><\<close>,
  \<open>>\<close>, \<open>%\<close>, \<open>!=\<close>, \<open>===\<close>), where \<open>undefined\<close> and \<open>NaN\<close> answer alike, so \<open>None\<close> stands for
  both. A \<open>Date\<close> is its time value, milliseconds since the epoch, \<open>None\<close> being the
  invalid date. A \<open>throw\<close> is the \<open>Inl\<close> of a sum.
\<close>

datatype js_error =
    TypeError
  | RangeError
  | SyntaxError
  | InvalidDateError
  | APIError

type_synonym number = "int option"

subsection \<open>Strings and numbers\<close>

definition is_digit :: "char \<Rightarrow> bool" where
  "is_digit c = (48 \<le> (of_char c :: nat) \<and> (of_char c :: nat) \<le> 57)"

definition digit_value :: "char \<Rightarrow> int" where
  "digit_value c = int (of_char c) - 48"

definition digits_value :: "string \<Rightarrow> int" where
  "digits_value s = foldl (\<lambda>n c. 10 * n + digit_value c) 0 s"

text \<open>A regular expression that is a sequence of \<open>\d\<close> and literal characters between
  \<open>^\<close> and \<open>$\<close>.\<close>

datatype pat_elem = Digit | Exactly char

fun matches_elem :: "pat_elem \<Rightarrow> char \<Rightarrow> bool" where
  "matches_elem Digit c = is_digit c"
| "matches_elem (Exactly x) c = (c = x)"

definition matches_pattern :: "pat_elem list \<Rightarrow> string \<Rightarrow> bool" where
  "matches_pattern pat s = list_all2 matches_elem pat s"

text \<open>\<open>String.prototype.split\<close> with a separator of one character.\<close>

fun split :: "char \<Rightarrow> string \<Rightarrow> string list" where
  "split sep [] = [[]]"
| "split sep (c # s) =
     (if c = sep then [] # split sep s
      else (case split sep s of [] \<Rightarrow> [[c]] | p # ps \<Rightarrow> (c # p) # ps))"

text \<open>\<open>Number(s)\<close>: the decimal value of a string of digits, \<open>0\<close> for the empty string.
  The other numeric literals (signs, fractions, exponents, radix prefixes, surrounding
  white space, \<open>Infinity\<close>) are left out and answer \<open>NaN\<close> here; the validator applies
  \<open>Number\<close> to pieces of a string that passed its regular expression, which are digits.\<close>

definition Number :: "string \<Rightarrow> number" where
  "Number s = (if list_all is_digit s then Some (digits_value s) else None)"

text \<open>The \<open>i\<close>-th variable of an array destructuring.\<close>

definition element :: "'a list \<Rightarrow> nat \<Rightarrow> 'a option" where
  "element xs i = (if i < length xs then Some (xs ! i) else None)"

definition number_element :: "number list \<Rightarrow> nat \<Rightarrow> number" where
  "number_element xs i = (if i < length xs then xs ! i else None)"

definition js_lt :: "number \<Rightarrow> int \<Rightarrow> bool" where
  "js_lt a n = (case a of None \<Rightarrow> False | Some x \<Rightarrow> x < n)"

definition js_gt :: "number \<Rightarrow> int \<Rightarrow> bool" where
  "js_gt a n = (case a of None \<Rightarrow> False | Some x \<Rightarrow> x > n)"

definition js_ne :: "number \<Rightarrow> int \<Rightarrow> bool" where
  "js_ne a n = (case a of None \<Rightarrow> True | Some x \<Rightarrow> x \<noteq> n)"

definition js_ge :: "number \<Rightarrow> number \<Rightarrow> bool" where
  "js_ge a b = (case a of None \<Rightarrow> False | Some x \<Rightarrow> (case b of None \<Rightarrow> False | Some y \<Rightarrow> x \<ge> y))"

definition js_le :: "number \<Rightarrow> number \<Rightarrow> bool" where
  "js_le a b = (case a of None \<Rightarrow> False | Some x \<Rightarrow> (case b of None \<Rightarrow> False | Some y \<Rightarrow> x \<le> y))"

definition js_strict_eq :: "number \<Rightarrow> number \<Rightarrow> bool" where
  "js_strict_eq a b =
     (case a of None \<Rightarrow> False | Some x \<Rightarrow> (case b of None \<Rightarrow> False | Some y \<Rightarrow> x = y))"

text \<open>\<open>a % n\<close>: the remainder takes the sign of the dividend.\<close>

definition js_rem :: "number \<Rightarrow> int \<Rightarrow> number" where
  "js_rem a n =
     (case a of
        None \<Rightarrow> None
      | Some x \<Rightarrow> if n = 0 then None else Some (sgn x * (\<bar>x\<bar> mod \<bar>n\<bar>)))"

definition js_plus :: "number \<Rightarrow> int \<Rightarrow> number" where
  "js_plus a n = map_option (\<lambda>x. x + n) a"

subsection \<open>The \<open>Date\<close> object\<close>

text \<open>
  Time values and the calendar follow ECMA-262 (Time Values and Time Range, Day Number
  and Time within Day, Year Number, Month Number, Date Number, Hours, Minutes, Second,
  MakeTime, MakeDay, MakeDate, TimeClip). Integer \<open>div\<close> and \<open>mod\<close> are the standard's
  \<open>floor\<close> and \<open>modulo\<close>.
\<close>

definition msPerDay :: int where "msPerDay = 86400000"
definition msPerHour :: int where "msPerHour = 3600000"
definition msPerMinute :: int where "msPerMinute = 60000"
definition msPerSecond :: int where "msPerSecond = 1000"

definition Day :: "int \<Rightarrow> int" where
  "Day t = t div msPerDay"

definition TimeWithinDay :: "int \<Rightarrow> int" where
  "TimeWithinDay t = t mod msPerDay"

definition DaysInYear :: "int \<Rightarrow> int" where
  "DaysInYear y =
     (if y mod 4 \<noteq> 0 then 365
      else if y mod 100 \<noteq> 0 then 366
      else if y mod 400 \<noteq> 0 then 365
      else 366)"

definition DayFromYear :: "int \<Rightarrow> int" where
  "DayFromYear y =
     365 * (y - 1970) + (y - 1969) div 4 - (y - 1901) div 100 + (y - 1601) div 400"

definition TimeFromYear :: "int \<Rightarrow> int" where
  "TimeFromYear y = msPerDay * DayFromYear y"

lemma div_next:
  "0 < (n::int) \<Longrightarrow> (a + 1) div n = a div n + (if (a + 1) mod n = 0 then 1 else 0)"
proof -
  assume n: "0 < n"
  define q r where "q = a div n" and "r = a mod n"
  have a: "a = n * q + r" and r: "0 \<le> r" "r < n" using n by (simp_all add: q_def r_def)
  show ?thesis
  proof (cases "r + 1 = n")
    case True
    then have e: "a + 1 = n * (q + 1) + 0" using a by (simp add: algebra_simps)
    have "(a + 1) div n = q + 1" using n by (intro int_div_pos_eq [OF e]) simp_all
    moreover have "(a + 1) mod n = 0" using n by (intro int_mod_pos_eq [OF e]) simp_all
    ultimately show ?thesis by (simp add: q_def)
  next
    case False
    then have lt: "r + 1 < n" using r by simp
    have e: "a + 1 = n * q + (r + 1)" using a by simp
    have "(a + 1) div n = q" using r lt by (intro int_div_pos_eq [OF e]) simp_all
    moreover have "(a + 1) mod n = r + 1" using r lt by (intro int_mod_pos_eq [OF e]) simp_all
    ultimately show ?thesis using r by (simp add: q_def)
  qed
qed

lemma mod4_shift: "(y - 1968) mod 4 = (y::int) mod 4"
proof -
  have "y - 1968 = y + 4 * (-492)" by simp
  then show ?thesis by (simp only: mod_mult_self2)
qed

lemma mod100_shift: "(y - 1900) mod 100 = (y::int) mod 100"
proof -
  have "y - 1900 = y + 100 * (-19)" by simp
  then show ?thesis by (simp only: mod_mult_self2)
qed

lemma mod400_shift: "(y - 1600) mod 400 = (y::int) mod 400"
proof -
  have "y - 1600 = y + 400 * (-4)" by simp
  then show ?thesis by (simp only: mod_mult_self2)
qed

lemma mod400_mod100: "(y::int) mod 400 = 0 \<Longrightarrow> y mod 100 = 0"
  using mod_mod_cancel [of 100 400 y] by simp

lemma mod100_mod4: "(y::int) mod 100 = 0 \<Longrightarrow> y mod 4 = 0"
  using mod_mod_cancel [of 4 100 y] by simp

lemma DayFromYear_next: "DayFromYear (y + 1) = DayFromYear y + DaysInYear y"
proof -
  have a: "(y - 1968) div 4 = (y - 1969) div 4 + (if y mod 4 = 0 then 1 else 0)"
    using div_next [of 4 "y - 1969"] by (simp add: mod4_shift)
  have b: "(y - 1900) div 100 = (y - 1901) div 100 + (if y mod 100 = 0 then 1 else 0)"
    using div_next [of 100 "y - 1901"] by (simp add: mod100_shift)
  have c: "(y - 1600) div 400 = (y - 1601) div 400 + (if y mod 400 = 0 then 1 else 0)"
    using div_next [of 400 "y - 1601"] by (simp add: mod400_shift)
  show ?thesis
    using mod400_mod100 [of y] mod100_mod4 [of y]
    by (simp add: DayFromYear_def DaysInYear_def a b c)
qed

lemma DaysInYear_cases: "DaysInYear y = 365 \<or> DaysInYear y = 366"
  by (simp add: DaysInYear_def)

lemma DayFromYear_less_next: "DayFromYear y < DayFromYear (y + 1)"
  using DayFromYear_next [of y] DaysInYear_cases [of y] by linarith

lemma DayFromYear_mono: "y \<le> y' \<Longrightarrow> DayFromYear y \<le> DayFromYear y'"
proof (induction y' rule: int_ge_induct)
  case base
  show ?case by simp
next
  case (step i)
  then show ?case using DayFromYear_less_next [of i] by linarith
qed

text \<open>
  \<open>YearFromTime(t)\<close> is the largest year \<open>y\<close> with \<open>TimeFromYear(y) \<le> t\<close>. It is found from
  an estimate by stepping down while the year starts after the day and up while the next
  year starts on or before it.
\<close>

function year_search :: "int \<Rightarrow> int \<Rightarrow> int" where
  "year_search d y =
     (if d < DayFromYear y then year_search d (y - 1)
      else if DayFromYear (y + 1) \<le> d then year_search d (y + 1)
      else y)"
  by pat_completeness auto
termination
proof (relation "measure (\<lambda>(d, y). nat (DayFromYear y - d) + nat (d + 1 - DayFromYear (y + 1)))")
  fix d y :: int
  assume "d < DayFromYear y"
  then show "((d, y - 1), (d, y))
      \<in> measure (\<lambda>(d, y). nat (DayFromYear y - d) + nat (d + 1 - DayFromYear (y + 1)))"
    using DayFromYear_less_next [of y] DayFromYear_less_next [of "y - 1"] by simp
next
  fix d y :: int
  assume "\<not> d < DayFromYear y" and "DayFromYear (y + 1) \<le> d"
  then show "((d, y + 1), (d, y))
      \<in> measure (\<lambda>(d, y). nat (DayFromYear y - d) + nat (d + 1 - DayFromYear (y + 1)))"
    using DayFromYear_less_next [of "y + 1"] by simp
qed simp

declare year_search.simps [simp del]

definition YearFromTime :: "int \<Rightarrow> int" where
  "YearFromTime t = year_search (Day t) (1970 + Day t div 365)"

definition InLeapYear :: "int \<Rightarrow> int" where
  "InLeapYear t = (if DaysInYear (YearFromTime t) = 365 then 0 else 1)"

definition DayWithinYear :: "int \<Rightarrow> int" where
  "DayWithinYear t = Day t - DayFromYear (YearFromTime t)"

definition MonthFromTime :: "int \<Rightarrow> int" where
  "MonthFromTime t =
     (let d = DayWithinYear t; L = InLeapYear t in
      if d < 31 then 0
      else if d < 59 + L then 1
      else if d < 90 + L then 2
      else if d < 120 + L then 3
      else if d < 151 + L then 4
      else if d < 181 + L then 5
      else if d < 212 + L then 6
      else if d < 243 + L then 7
      else if d < 273 + L then 8
      else if d < 304 + L then 9
      else if d < 334 + L then 10
      else 11)"

definition DateFromTime :: "int \<Rightarrow> int" where
  "DateFromTime t =
     (let d = DayWithinYear t; L = InLeapYear t; m = MonthFromTime t in
      if m = 0 then d + 1
      else if m = 1 then d - 30
      else if m = 2 then d - 58 - L
      else if m = 3 then d - 89 - L
      else if m = 4 then d - 119 - L
      else if m = 5 then d - 150 - L
      else if m = 6 then d - 180 - L
      else if m = 7 then d - 211 - L
      else if m = 8 then d - 242 - L
      else if m = 9 then d - 272 - L
      else if m = 10 then d - 303 - L
      else d - 333 - L)"

definition HourFromTime :: "int \<Rightarrow> int" where
  "HourFromTime t = (t div msPerHour) mod 24"

definition MinFromTime :: "int \<Rightarrow> int" where
  "MinFromTime t = (t div msPerMinute) mod 60"

definition SecFromTime :: "int \<Rightarrow> int" where
  "SecFromTime t = (t div msPerSecond) mod 60"

definition MakeTime :: "int \<Rightarrow> int \<Rightarrow> int \<Rightarrow> int \<Rightarrow> int" where
  "MakeTime hour minute sec ms =
     hour * msPerHour + minute * msPerMinute + sec * msPerSecond + ms"

text \<open>The day within a year on which month \<open>mn\<close> (from \<open>0\<close>) starts: the lower bounds of
  the table of \<open>MonthFromTime\<close>.\<close>

definition month_start :: "int \<Rightarrow> int \<Rightarrow> int" where
  "month_start L mn =
     (if mn = 0 then 0
      else if mn = 1 then 31
      else if mn = 2 then 59 + L
      else if mn = 3 then 90 + L
      else if mn = 4 then 120 + L
      else if mn = 5 then 151 + L
      else if mn = 6 then 181 + L
      else if mn = 7 then 212 + L
      else if mn = 8 then 243 + L
      else if mn = 9 then 273 + L
      else if mn = 10 then 304 + L
      else 334 + L)"

text \<open>\<open>MakeDay\<close> finds the time \<open>t\<close> whose year is \<open>ym\<close>, whose month is \<open>mn\<close> and whose date
  is \<open>1\<close>, and answers \<open>Day(t) + date - 1\<close>; \<open>Day(t)\<close> is the start of the year plus the
  start of the month.\<close>

definition MakeDay :: "int \<Rightarrow> int \<Rightarrow> int \<Rightarrow> int" where
  "MakeDay year month date =
     (let ym = year + month div 12;
          mn = month mod 12;
          day_t = DayFromYear ym + month_start (if DaysInYear ym = 365 then 0 else 1) mn
      in day_t + date - 1)"

definition MakeDate :: "int \<Rightarrow> int \<Rightarrow> int" where
  "MakeDate day time = day * msPerDay + time"

definition TimeClip :: "int \<Rightarrow> int option" where
  "TimeClip t = (if \<bar>t\<bar> > 8640000000000000 then None else Some t)"

text \<open>
  What the host decides. \<open>LocalTZA t isUTC\<close> is the offset of the local time zone in
  milliseconds, at the UTC time \<open>t\<close> when \<open>isUTC\<close> holds and at the local time \<open>t\<close>
  otherwise; a local time that a forward clock change skips is read with the offset
  before the change. \<open>fallback_parse\<close> is the implementation-defined reading of a string
  that is not in the format modelled below.
\<close>

record js_env =
  LocalTZA :: "int \<Rightarrow> bool \<Rightarrow> int"
  fallback_parse :: "string \<Rightarrow> int option"

definition LocalTime :: "js_env \<Rightarrow> int \<Rightarrow> int" where
  "LocalTime env t = t + LocalTZA env t True"

definition UTC :: "js_env \<Rightarrow> int \<Rightarrow> int" where
  "UTC env t = t - LocalTZA env t False"

text \<open>The regular expression of \<open>isValidDateTime\<close>,
  \<^verbatim>\<open>/^\d{4}-\d{2}-\d{2}T\d{2}:\d{2}:\d{2}$/\<close>; it is also the date-time form
  \<open>YYYY-MM-DDTHH:mm:ss\<close> of the Date Time String Format.\<close>

definition regex :: "pat_elem list" where
  "regex =
     [Digit, Digit, Digit, Digit, Exactly CHR ''-'', Digit, Digit, Exactly CHR ''-'',
      Digit, Digit, Exactly CHR ''T'', Digit, Digit, Exactly CHR '':'', Digit, Digit,
      Exactly CHR '':'', Digit, Digit]"

text \<open>
  \<open>new Date(s)\<close> for a string. A string in the form \<open>YYYY-MM-DDTHH:mm:ss\<close>, with no offset,
  is a local time. Out of range are a month outside 1 to 12, a day outside 1 to 31, an
  hour above 24 (24 needs minute and second 0), a minute or second above 59: the date is
  invalid. A day up to 31 that the month does not have is taken by V8, the engine of the
  Electron shell, and rolls over into the next month through \<open>MakeDay\<close>. Every other
  string, the shorter forms and the forms with an offset included, goes to
  \<open>fallback_parse\<close>.
\<close>

definition new_Date :: "js_env \<Rightarrow> string \<Rightarrow> int option" where
  "new_Date env s =
     (if matches_pattern regex s then
        (let year = digits_value (take 4 s);
             month = digits_value (take 2 (drop 5 s));
             day = digits_value (take 2 (drop 8 s));
             hour = digits_value (take 2 (drop 11 s));
             minute = digits_value (take 2 (drop 14 s));
             second = digits_value (take 2 (drop 17 s))
         in if month < 1 \<or> 12 < month \<or> day < 1 \<or> 31 < day \<or> 24 < hour
               \<or> (hour = 24 \<and> (0 < minute \<or> 0 < second)) \<or> 59 < minute \<or> 59 < second
            then None
            else TimeClip (UTC env
                   (MakeDate (MakeDay year (month - 1) day) (MakeTime hour minute second 0))))
      else fallback_parse env s)"

definition getFullYear :: "js_env \<Rightarrow> int option \<Rightarrow> number" where
  "getFullYear env date = map_option (\<lambda>t. YearFromTime (LocalTime env t)) date"

definition getMonth :: "js_env \<Rightarrow> int option \<Rightarrow> number" where
  "getMonth env date = map_option (\<lambda>t. MonthFromTime (LocalTime env t)) date"

definition getDate :: "js_env \<Rightarrow> int option \<Rightarrow> number" where
  "getDate env date = map_option (\<lambda>t. DateFromTime (LocalTime env t)) date"

definition getHours :: "js_env \<Rightarrow> int option \<Rightarrow> number" where
  "getHours env date = map_option (\<lambda>t. HourFromTime (LocalTime env t)) date"

definition getMinutes :: "js_env \<Rightarrow> int option \<Rightarrow> number" where
  "getMinutes env date = map_option (\<lambda>t. MinFromTime (LocalTime env t)) date"

definition getSeconds :: "js_env \<Rightarrow> int option \<Rightarrow> number" where
  "getSeconds env date = map_option (\<lambda>t. SecFromTime (LocalTime env t)) date"

definition isNaN :: "int option \<Rightarrow> bool" where
  "isNaN date = (date = None)"

subsection \<open>\<open>isValidDateTime\<close>, \<open>isQuarterHour\<close>, \<open>isDateTimeInRange\<close>\<close>

definition isQuarterHour :: "number \<Rightarrow> bool" where
  "isQuarterHour minutes = js_strict_eq (js_rem minutes 15) (Some 0)"

text \<open>A method call on \<open>undefined\<close> (\<open>datePart.split\<close>, \<open>timePart.split\<close>) throws a
  \<open>TypeError\<close>.\<close>

definition isValidDateTime :: "js_env \<Rightarrow> string \<Rightarrow> js_error + bool" where
  "isValidDateTime env str =
     (if \<not> matches_pattern regex str then Inr False
      else
        (let parts = split CHR ''T'' str in
         case element parts 0 of
           None \<Rightarrow> Inl TypeError
         | Some datePart \<Rightarrow>
             (case element parts 1 of
                None \<Rightarrow> Inl TypeError
              | Some timePart \<Rightarrow>
                  (let ymd = map Number (split CHR ''-'' datePart);
                       year = number_element ymd 0;
                       month = number_element ymd 1;
                       day = number_element ymd 2;
                       hms = map Number (split CHR '':'' timePart);
                       hour = number_element hms 0;
                       minute = number_element hms 1;
                       second = number_element hms 2
                   in if js_lt month 1 \<or> js_gt month 12 then Inr False
                      else if js_lt hour 0 \<or> js_gt hour 23 then Inr False
                      else if js_lt minute 0 \<or> js_gt minute 59 \<or> \<not> isQuarterHour minute
                        then Inr False
                      else if js_ne second 0 then Inr False
                      else
                        (let date = new_Date env (datePart @ ''T'' @ timePart) in
                         Inr (js_strict_eq (getFullYear env date) year
                              \<and> js_strict_eq (js_plus (getMonth env date) 1) month
                              \<and> js_strict_eq (getDate env date) day
                              \<and> js_strict_eq (getHours env date) hour
                              \<and> js_strict_eq (getMinutes env date) minute
                              \<and> js_strict_eq (getSeconds env date) second))))))"

definition isDateTimeInRange :: "js_env \<Rightarrow> string \<Rightarrow> string \<Rightarrow> string \<Rightarrow> js_error + bool" where
  "isDateTimeInRange env dateTimeStr rangeStartStr rangeEndStr =
     (let dateTime = new_Date env dateTimeStr;
          rangeStart = new_Date env rangeStartStr;
          rangeEnd = new_Date env rangeEndStr
      in if isNaN dateTime \<or> isNaN rangeStart \<or> isNaN rangeEnd then Inl InvalidDateError
         else Inr (js_ge dateTime rangeStart \<and> js_le dateTime rangeEnd))"

subsection \<open>\<open>getReservations\<close>\<close>

text \<open>
  The data source, as the function sees it: the constant \<open>apiUri\<close> (imported from a file
  that is not part of the sources) and \<open>fetch\<close>. A \<open>fetch\<close> either rejects, with a
  \<open>TypeError\<close>, when the request cannot be made, or resolves to a response with its \<open>ok\<close>
  flag, its status and its body as \<open>response.json()\<close> reads it (\<open>None\<close>: the body is not
  JSON and \<open>json()\<close> rejects with a \<open>SyntaxError\<close>).

  The function is \<open>async\<close>: its result is how the promise settles, \<open>Inl\<close> a rejection and
  \<open>Inr ()\<close> the fulfilment with \<open>undefined\<close> (the function has no \<open>return\<close>). With it
  comes the list of what it did to the outside, in order.
\<close>

datatype fetch_outcome =
    NetworkFailure
  | Response bool int "string option"

record network =
  apiUri :: string
  fetch :: "string \<Rightarrow> fetch_outcome"

datatype effect =
    Fetched string
  | ConsoleLog string
  | ConsoleError js_error

definition getReservations ::
  "js_env \<Rightarrow> network \<Rightarrow> string \<Rightarrow> string \<Rightarrow> effect list \<times> (js_error + unit)"
where
  "getReservations env net startDateTime endDateTime =
     (case isValidDateTime env startDateTime of
        Inl e \<Rightarrow> ([], Inl e)
      | Inr valid_start \<Rightarrow>
          if \<not> valid_start then ([], Inl InvalidDateError)
          else
            (case isValidDateTime env endDateTime of
               Inl e \<Rightarrow> ([], Inl e)
             | Inr valid_end \<Rightarrow>
                 if \<not> valid_end then ([], Inl InvalidDateError)
                 else
                   (let url = apiUri net @ ''/get-reservations?startDateTime='' @ startDateTime
                                @ ''&endDateTime='' @ endDateTime
                    in case fetch net url of
                         NetworkFailure \<Rightarrow> ([Fetched url, ConsoleError TypeError], Inl TypeError)
                       | Response ok status body \<Rightarrow>
                           if \<not> ok then ([Fetched url, ConsoleError APIError], Inl APIError)
                           else
                             (case body of
                                None \<Rightarrow> ([Fetched url, ConsoleError SyntaxError], Inl SyntaxError)
                              | Some data \<Rightarrow> ([Fetched url, ConsoleLog data], Inr ())))))"

section \<open>What the specification states\<close>

text \<open>The four corner-ordering inequalities of a Table.\<close>

definition corner_ordering :: "table_row \<Rightarrow> bool" where
  "corner_ordering r =
     (tl_x r < tr_x r \<and> bl_x r < br_x r \<and> tl_y r > bl_y r \<and> tr_y r > br_y r)"

text \<open>At most one reservation at a table at a date-time; at most one section for a table
  within a layout.\<close>

definition one_reservation_per_table_and_time :: "reservation_at_table_row list \<Rightarrow> bool" where
  "one_reservation_per_table_and_time rows =
     distinct (map (\<lambda>r. (rat_table_number r, rat_reservation_datetime r)) rows)"

definition one_section_per_layout :: "table_in_section_row list \<Rightarrow> bool" where
  "one_section_per_layout rows =
     distinct (map (\<lambda>r. (tis_table_number r, tis_layout_id r)) rows)"

text \<open>The digit pattern of a date-time, \<open>YYYY-MM-DD HH:MM:SS\<close> with the separator \<open>sep\<close>
  between date and time: a blank in the store, a \<open>T\<close> in the utilities.\<close>

definition digit_pattern :: "char \<Rightarrow> string \<Rightarrow> bool" where
  "digit_pattern sep s =
     (length s = 19
      \<and> list_all (\<lambda>i. is_digit (s ! i)) [0, 1, 2, 3, 5, 6, 8, 9, 11, 12, 14, 15, 17, 18]
      \<and> s ! 4 = CHR ''-'' \<and> s ! 7 = CHR ''-'' \<and> s ! 10 = sep
      \<and> s ! 13 = CHR '':'' \<and> s ! 16 = CHR '':'')"


text \<open>The fields of a string of that pattern, as numbers.\<close>

definition field_year :: "string \<Rightarrow> int" where "field_year s = digits_value (take 4 s)"
definition field_month :: "string \<Rightarrow> int" where "field_month s = digits_value (take 2 (drop 5 s))"
definition field_day :: "string \<Rightarrow> int" where "field_day s = digits_value (take 2 (drop 8 s))"
definition field_hour :: "string \<Rightarrow> int" where "field_hour s = digits_value (take 2 (drop 11 s))"
definition field_minute :: "string \<Rightarrow> int" where "field_minute s = digits_value (take 2 (drop 14 s))"
definition field_second :: "string \<Rightarrow> int" where "field_second s = digits_value (take 2 (drop 17 s))"

text \<open>The calendar: a day exists when the month of that year has it.\<close>

definition leap_year :: "int \<Rightarrow> bool" where
  "leap_year y = (y mod 4 = 0 \<and> (y mod 100 \<noteq> 0 \<or> y mod 400 = 0))"

definition days_in_month :: "int \<Rightarrow> int \<Rightarrow> int" where
  "days_in_month y m =
     (if m = 2 then (if leap_year y then 29 else 28)
      else if m = 4 \<or> m = 6 \<or> m = 9 \<or> m = 11 then 30
      else 31)"

text \<open>A valid date-time: the digit pattern \<open>YYYY-MM-DDTHH:MM:SS\<close>, the month in 1 to 12, the hour
  in 0 to 23, the minute one of 0, 15, 30, 45, the second 0, and a day that exists.\<close>

definition valid_datetime_spec :: "string \<Rightarrow> bool" where
  "valid_datetime_spec s =
     (digit_pattern CHR ''T'' s
      \<and> 1 \<le> field_month s \<and> field_month s \<le> 12
      \<and> 0 \<le> field_hour s \<and> field_hour s \<le> 23
      \<and> (field_minute s = 0 \<or> field_minute s = 15 \<or> field_minute s = 30 \<or> field_minute s = 45)
      \<and> field_second s = 0
      \<and> 1 \<le> field_day s \<and> field_day s \<le> days_in_month (field_year s) (field_month s))"

text \<open>A date-time that exists on the calendar, whatever its minute and second; and its
  fields in the order in which they are written, which is the order of time.\<close>

definition written_fields :: "string \<Rightarrow> int list" where
  "written_fields s =
     [field_year s, field_month s, field_day s, field_hour s, field_minute s, field_second s]"

definition calendar_datetime :: "string \<Rightarrow> bool" where
  "calendar_datetime s =
     (digit_pattern CHR ''T'' s
      \<and> 1 \<le> field_month s \<and> field_month s \<le> 12
      \<and> 1 \<le> field_day s \<and> field_day s \<le> days_in_month (field_year s) (field_month s)
      \<and> field_hour s \<le> 23 \<and> field_minute s \<le> 59 \<and> field_second s \<le> 59)"

section \<open>Example rows\<close>

text \<open>The table of Scenario A, a table whose bottom corners are crossed, a table the
  geometry constraint accepts; customers who share a phone number; bookings, slots,
  placements and table assignments.\<close>

definition scenario_A_table :: table_row where
  "scenario_A_table =
     \<lparr>table_number = 1, default_chairs = 2, max_chairs = 4,
      tl_x = 0, tl_y = 10, tr_x = 2, tr_y = 10, bl_x = 0, bl_y = 0, br_x = 2, br_y = 0\<rparr>"

definition crossed_table :: table_row where
  "crossed_table =
     \<lparr>table_number = 2, default_chairs = 2, max_chairs = 4,
      tl_x = 0, tl_y = 10, tr_x = 2, tr_y = 10, bl_x = 5, bl_y = 0, br_x = 1, br_y = 6\<rparr>"

definition table_5 :: table_row where
  "table_5 =
     \<lparr>table_number = 5, default_chairs = 2, max_chairs = 4,
      tl_x = 0, tl_y = 10, tr_x = 2, tr_y = 10, bl_x = 0, bl_y = 1, br_x = 2, br_y = 1\<rparr>"

definition ann_lee :: customer_row where
  "ann_lee = \<lparr>customer_id = 1, first_name = ''Ann'', last_name = ''Lee'',
               phone_number = ''(508) 555-0100'', email = None\<rparr>"

definition ann_ray :: customer_row where
  "ann_ray = \<lparr>customer_id = 2, first_name = ''Ann'', last_name = ''Ray'',
               phone_number = ''(508) 555-0100'', email = None\<rparr>"

definition joe_fox :: customer_row where
  "joe_fox = \<lparr>customer_id = 3, first_name = ''Joe'', last_name = ''Fox'',
               phone_number = ''(508) 555-0100'', email = None\<rparr>"

definition booking :: "int \<Rightarrow> int \<Rightarrow> string \<Rightarrow> reservation_row" where
  "booking rid cid dt =
     \<lparr>reservation_id = rid, res_customer_id = cid, num_people = 4, reservation_datetime = dt,
      date_created = ''2024-05-01 09:00:00'', num_highchairs = Some 0, res_notes = None\<rparr>"

definition booking_original :: "int \<Rightarrow> int \<Rightarrow> string \<Rightarrow> reservation_row_original" where
  "booking_original rid cid dt =
     \<lparr>reservation_id = rid, res_customer_id = cid, num_people = 4, reservation_datetime = dt,
      date_created = ''####-##-## ##:##:##'', num_highchairs = Some 0, res_notes = None,
      res_table_set_id = None\<rparr>"

definition slot :: "int \<Rightarrow> int \<Rightarrow> int \<Rightarrow> section_in_layout_row" where
  "slot sec lay num =
     \<lparr>sil_section_id = sec, sil_layout_id = lay, sil_section_number = num, server_name = None\<rparr>"

definition placement :: "int \<Rightarrow> int \<Rightarrow> int \<Rightarrow> table_in_section_row" where
  "placement tab lay num =
     \<lparr>tis_table_number = tab, tis_layout_id = lay, tis_section_number = num\<rparr>"

definition assignment :: "int \<Rightarrow> string \<Rightarrow> int \<Rightarrow> reservation_at_table_row" where
  "assignment rid dt tab =
     \<lparr>rat_reservation_id = rid, rat_reservation_datetime = dt, rat_table_number = tab\<rparr>"


section \<open>Properties of the store\<close>

lemmas violation_defs =
  Table_violation_def TableSet_violation_def TableInTableSet_violation_def Customer_violation_def
  Reservation_violation_original_def Reservation_violation_refined_def Layout_violation_def
  Section_violation_def SectionInLayout_violation_def TableInSection_violation_def
  TableSetInSection_violation_def ReservationAtTable_violation_def
  Table_CHECK_def Customer_CHECK_def Reservation_CHECK_original_def Reservation_CHECK_refined_def
  customer_key_def booking_key_def reservation_key_def slot_key_def placement_key_def
  assignment_key_def stored_def GLOB_def in_items_def
  datetime_glob_original_def datetime_glob_refined_def

lemmas example_defs =
  scenario_A_table_def crossed_table_def table_5_def ann_lee_def ann_ray_def joe_fox_def
  booking_def booking_original_def slot_def placement_def assignment_def
  empty_original_def empty_refined_def

lemma stored_Inr: "stored v d = Inr db' \<longleftrightarrow> v = None \<and> db' = d"
  by (auto simp: stored_def split: option.splits)

lemma stored_Inl: "stored v d = Inl e \<longleftrightarrow> v = Some e"
  by (auto simp: stored_def split: option.splits)

lemma Customer_accepted:
  "Customer_violation rows r = None \<longleftrightarrow>
     Customer_CHECK r \<and> customer_id r \<notin> set (map customer_id rows)
     \<and> customer_key r \<notin> set (map customer_key rows)"
  by (simp add: Customer_violation_def)

lemma Reservation_original_accepted:
  "Reservation_violation_original cs ts rows r = None \<Longrightarrow>
     booking_key r \<notin> set (map booking_key rows)"
  by (simp add: Reservation_violation_original_def split: if_splits)

lemma Reservation_refined_accepted:
  "Reservation_violation_refined cs rows r = None \<Longrightarrow>
     booking_key r \<notin> set (map booking_key rows)"
  by (simp add: Reservation_violation_refined_def split: if_splits)

lemma Reservation_original_duplicate:
  "booking_key r \<in> set (map booking_key rows) \<Longrightarrow>
     Reservation_violation_original cs ts rows r \<noteq> None"
  by (simp add: Reservation_violation_original_def)

lemma Reservation_refined_duplicate:
  "booking_key r \<in> set (map booking_key rows) \<Longrightarrow>
     Reservation_violation_refined cs rows r \<noteq> None"
  by (simp add: Reservation_violation_refined_def)

lemma reachable_original_invariant:
  "reachable_original db \<Longrightarrow>
     distinct (map customer_key (o_Customer db)) \<and> list_all Customer_CHECK (o_Customer db)
     \<and> distinct (map booking_key (o_Reservation db))"
proof (induction rule: reachable_original.induct)
  case original_empty
  show ?case by (simp add: empty_original_def)
next
  case (original_insert db i db')
  then show ?case
    by (cases i)
       (auto simp: stored_Inr Customer_accepted dest: Reservation_original_accepted)
qed

lemma reachable_refined_invariant:
  "reachable_refined db \<Longrightarrow>
     distinct (map customer_key (r_Customer db)) \<and> list_all Customer_CHECK (r_Customer db)
     \<and> distinct (map booking_key (r_Reservation db))"
proof (induction rule: reachable_refined.induct)
  case refined_empty
  show ?case by (simp add: empty_refined_def)
next
  case (refined_insert db i db')
  then show ?case
    by (cases i)
       (auto simp: stored_Inr Customer_accepted dest: Reservation_refined_accepted)
qed

lemma run_original_reachable:
  "reachable_original db \<Longrightarrow> run_original db is = Inr db' \<Longrightarrow> reachable_original db'"
proof (induction "is" arbitrary: db)
  case Nil
  then show ?case by simp
next
  case (Cons i "is")
  then show ?case
    by (auto split: sum.splits intro: reachable_original.original_insert)
qed

lemma run_refined_reachable:
  "reachable_refined db \<Longrightarrow> run_refined db is = Inr db' \<Longrightarrow> reachable_refined db'"
proof (induction "is" arbitrary: db)
  case Nil
  then show ?case by simp
next
  case (Cons i "is")
  then show ?case
    by (auto split: sum.splits intro: reachable_refined.refined_insert)
qed


subsection \<open>The two date-time patterns\<close>

definition datetime_elems :: "char \<Rightarrow> pat_elem list" where
  "datetime_elems sep =
     [Digit, Digit, Digit, Digit, Exactly CHR ''-'', Digit, Digit, Exactly CHR ''-'',
      Digit, Digit, Exactly sep, Digit, Digit, Exactly CHR '':'', Digit, Digit,
      Exactly CHR '':'', Digit, Digit]"

lemma length_19_explicit:
  assumes "length s = 19"
  shows "s = [s ! 0, s ! 1, s ! 2, s ! 3, s ! 4, s ! 5, s ! 6, s ! 7, s ! 8, s ! 9, s ! 10,
              s ! 11, s ! 12, s ! 13, s ! 14, s ! 15, s ! 16, s ! 17, s ! 18]"
proof (rule nth_equalityI)
  show "length s = length [s ! 0, s ! 1, s ! 2, s ! 3, s ! 4, s ! 5, s ! 6, s ! 7, s ! 8, s ! 9, s ! 10,
              s ! 11, s ! 12, s ! 13, s ! 14, s ! 15, s ! 16, s ! 17, s ! 18]"
    using assms by simp
next
  fix i assume "i < length s"
  then have "i < 19" using assms by simp
  then have "i \<in> {0,1,2,3,4,5,6,7,8,9,10,11,12,13,14,15,16,17,18}"
    by (simp only: insert_iff empty_iff) arith
  then show "s ! i = [s ! 0, s ! 1, s ! 2, s ! 3, s ! 4, s ! 5, s ! 6, s ! 7, s ! 8, s ! 9, s ! 10,
              s ! 11, s ! 12, s ! 13, s ! 14, s ! 15, s ! 16, s ! 17, s ! 18] ! i"
    by auto
qed

lemma matches_datetime_elems: "matches_pattern (datetime_elems sep) s = digit_pattern sep s"
proof (cases "length s = 19")
  case False
  moreover have "matches_pattern (datetime_elems sep) s \<Longrightarrow> length s = 19"
    by (auto simp: matches_pattern_def datetime_elems_def dest: list_all2_lengthD)
  ultimately show ?thesis by (auto simp: digit_pattern_def)
next
  case True
  obtain c0 c1 c2 c3 c4 c5 c6 c7 c8 c9 c10 c11 c12 c13 c14 c15 c16 c17 c18
    where s: "s = [c0, c1, c2, c3, c4, c5, c6, c7, c8, c9, c10, c11, c12, c13, c14, c15, c16, c17, c18]"
    using length_19_explicit [OF True] by blast
  show ?thesis
    unfolding s by (simp add: matches_pattern_def datetime_elems_def digit_pattern_def) blast
qed

fun pat_tok :: "pat_elem \<Rightarrow> glob_tok" where
  "pat_tok Digit = CharSet False [(CHR ''0'', CHR ''0''), (CHR ''0'', CHR ''9'')]"
| "pat_tok (Exactly x) = Lit x"

lemma glob_match_pat: "glob_match (map pat_tok pat) s = matches_pattern pat s"
proof (induction pat arbitrary: s)
  case Nil
  then show ?case by (auto simp: matches_pattern_def)
next
  case (Cons e pat)
  show ?case
  proof (cases s)
    case Nil
    then show ?thesis by (cases e) (simp_all add: matches_pattern_def)
  next
    case (Cons c s')
    have "in_items c [(CHR ''0'', CHR ''0''), (CHR ''0'', CHR ''9'')] = is_digit c"
      by (auto simp: in_items_def is_digit_def)
    with Cons Cons.IH [of s'] show ?thesis
      by (cases e) (simp_all add: matches_pattern_def)
  qed
qed

lemma glob_match_Lit: "glob_match (map Lit p) s = (s = p)"
proof (induction p arbitrary: s)
  case Nil
  then show ?case by simp
next
  case (Cons x p)
  then show ?case by (cases s) auto
qed

lemma glob_tokens_refined:
  "glob_tokens datetime_glob_refined = Some (map pat_tok (datetime_elems CHR '' ''))"
  by (simp add: datetime_glob_refined_def datetime_elems_def)

lemma glob_tokens_original:
  "glob_tokens datetime_glob_original = Some (map Lit ''####-##-## ##:##:##'')"
  by (simp add: datetime_glob_original_def)

lemma GLOB_refined: "GLOB s datetime_glob_refined = digit_pattern CHR '' '' s"
  by (simp add: GLOB_def glob_tokens_refined glob_match_pat matches_datetime_elems)

lemma GLOB_original: "GLOB s datetime_glob_original = (s = ''####-##-## ##:##:##'')"
  by (simp only: GLOB_def glob_tokens_original glob_match_Lit option.case)

subsection \<open>What the keys and the foreign keys guarantee\<close>

lemma reachable_refined_keys:
  "reachable_refined db \<Longrightarrow>
     distinct (map customer_id (r_Customer db))
     \<and> distinct (map reservation_id (r_Reservation db))
     \<and> list_all Reservation_CHECK_refined (r_Reservation db)
     \<and> distinct (map table_number (r_Table db))
     \<and> list_all Table_CHECK (r_Table db)
     \<and> distinct (map layout_id (r_Layout db))
     \<and> distinct (map section_id (r_Section db))
     \<and> distinct (map slot_key (r_SectionInLayout db))
     \<and> distinct (map assignment_key (r_ReservationAtTable db))
     \<and> distinct (map placement_key (r_TableInSection db))"
proof (induction rule: reachable_refined.induct)
  case refined_empty
  show ?case by (simp add: empty_refined_def)
next
  case (refined_insert db i db')
  then show ?case
    by (cases i)
       (auto simp: stored_Inr Customer_violation_def Reservation_violation_refined_def
          Table_violation_def Layout_violation_def Section_violation_def
          SectionInLayout_violation_def ReservationAtTable_violation_def
          TableInSection_violation_def split: if_splits)
qed

lemma reachable_refined_references:
  "reachable_refined db \<Longrightarrow>
     set (map res_customer_id (r_Reservation db)) \<subseteq> set (map customer_id (r_Customer db))
     \<and> set (map (\<lambda>r. (rat_reservation_id r, rat_reservation_datetime r)) (r_ReservationAtTable db))
         \<subseteq> set (map reservation_key (r_Reservation db))
     \<and> set (map rat_table_number (r_ReservationAtTable db)) \<subseteq> set (map table_number (r_Table db))
     \<and> set (map sil_section_id (r_SectionInLayout db)) \<subseteq> set (map section_id (r_Section db))
     \<and> set (map sil_layout_id (r_SectionInLayout db)) \<subseteq> set (map layout_id (r_Layout db))
     \<and> set (map tis_table_number (r_TableInSection db)) \<subseteq> set (map table_number (r_Table db))
     \<and> set (map (\<lambda>r. (tis_layout_id r, tis_section_number r)) (r_TableInSection db))
         \<subseteq> set (map slot_key (r_SectionInLayout db))"
proof (induction rule: reachable_refined.induct)
  case refined_empty
  show ?case by (simp add: empty_refined_def)
next
  case (refined_insert db i db')
  then show ?case
    by (cases i)
       (auto simp: stored_Inr Customer_violation_def Reservation_violation_refined_def
          Table_violation_def Layout_violation_def Section_violation_def
          SectionInLayout_violation_def ReservationAtTable_violation_def
          TableInSection_violation_def split: if_splits)
qed

lemma reachable_original_keys:
  "reachable_original db \<Longrightarrow>
     distinct (map table_number (o_Table db))
     \<and> list_all Table_CHECK (o_Table db)
     \<and> distinct (map table_set_id (o_TableSet db))
     \<and> distinct (map customer_id (o_Customer db))
     \<and> distinct (map reservation_id (o_Reservation db))
     \<and> list_all Reservation_CHECK_original (o_Reservation db)
     \<and> distinct (map layout_id (o_Layout db))
     \<and> distinct (map section_id (o_Section db))
     \<and> distinct (map slot_key (o_SectionInLayout db))
     \<and> distinct (map placement_key (o_TableInSection db))"
proof (induction rule: reachable_original.induct)
  case original_empty
  show ?case by (simp add: empty_original_def)
next
  case (original_insert db i db')
  then show ?case
    by (cases i)
       (auto simp: stored_Inr Customer_violation_def Reservation_violation_original_def
          Table_violation_def TableSet_violation_def TableInTableSet_violation_def
          Layout_violation_def Section_violation_def
          SectionInLayout_violation_def TableSetInSection_violation_def
          TableInSection_violation_def split: if_splits)
qed

text \<open>The original variant stores one date-time string only.\<close>

lemma original_admits_one_datetime:
  "reachable_original db \<Longrightarrow> r \<in> set (o_Reservation db) \<Longrightarrow>
     reservation_datetime r = ''####-##-## ##:##:##''"
  using reachable_original_keys [of db]
  by (auto simp: list_all_iff Reservation_CHECK_original_def GLOB_original)

subsection \<open>Example databases\<close>

definition example_original :: original_db where
  "example_original =
     empty_original
       \<lparr>o_Customer := [joe_fox],
        o_Reservation := [booking_original 1 3 ''####-##-## ##:##:##'']\<rparr>"

definition example_refined :: refined_db where
  "example_refined =
     empty_refined
       \<lparr>r_Customer := [joe_fox],
        r_Reservation := [booking 1 3 ''2024-06-01 18:00:00'']\<rparr>"

lemma example_original_reachable: "reachable_original example_original"
proof -
  have "run_original empty_original
          [Original_Customer joe_fox,
           Original_Reservation (booking_original 1 3 ''####-##-## ##:##:##'')]
        = Inr example_original"
    by (simp add: violation_defs example_defs example_original_def)
  then show ?thesis
    using run_original_reachable [OF reachable_original.original_empty] by blast
qed

lemma example_refined_reachable: "reachable_refined example_refined"
proof -
  have "run_refined empty_refined
          [Refined_Customer joe_fox, Refined_Reservation (booking 1 3 ''2024-06-01 18:00:00'')]
        = Inr example_refined"
    by (simp add: violation_defs example_defs example_refined_def)
  then show ?thesis
    using run_refined_reachable [OF reachable_refined.refined_empty] by blast
qed

definition booked_original :: original_db where
  "booked_original =
     empty_original
       \<lparr>o_Customer := [joe_fox, ann_lee],
        o_Reservation := [booking_original 1 3 ''####-##-## ##:##:##'']\<rparr>"

lemma booked_original_reachable: "reachable_original booked_original"
proof -
  have "run_original empty_original
          [Original_Customer joe_fox, Original_Customer ann_lee,
           Original_Reservation (booking_original 1 3 ''####-##-## ##:##:##'')]
        = Inr booked_original"
    by (simp add: violation_defs example_defs booked_original_def)
  then show ?thesis
    using run_original_reachable [OF reachable_original.original_empty] by blast
qed

definition double_booked :: refined_db where
  "double_booked =
     empty_refined
       \<lparr>r_Customer := [ann_lee, ann_ray],
        r_Reservation :=
          [booking 1 1 ''2024-06-01 18:00:00'', booking 2 2 ''2024-06-01 18:00:00''],
        r_Table := [table_5],
        r_ReservationAtTable :=
          [assignment 1 ''2024-06-01 18:00:00'' 5, assignment 2 ''2024-06-01 18:00:00'' 5]\<rparr>"

text \<open>Layout A is layout 1 and layout B is layout 2; sections 1 and 2 are bound to layout
  A under the numbers 1 and 2, section 1 to layout B under the number 1. Table 5 is then
  placed into slot (A, 1), slot (A, 2) and slot (B, 1).\<close>

definition floor_plan_original :: "original_insert list" where
  "floor_plan_original =
     [Original_Layout \<lparr>layout_id = 1, layout_common_name = Some ''A''\<rparr>,
      Original_Layout \<lparr>layout_id = 2, layout_common_name = Some ''B''\<rparr>,
      Original_Section \<lparr>section_id = 1, section_common_name = None\<rparr>,
      Original_Section \<lparr>section_id = 2, section_common_name = None\<rparr>,
      Original_SectionInLayout (slot 1 1 1),
      Original_SectionInLayout (slot 2 1 2),
      Original_SectionInLayout (slot 1 2 1),
      Original_Table table_5]"

definition floor_plan_refined :: "refined_insert list" where
  "floor_plan_refined =
     [Refined_Layout \<lparr>layout_id = 1, layout_common_name = Some ''A''\<rparr>,
      Refined_Layout \<lparr>layout_id = 2, layout_common_name = Some ''B''\<rparr>,
      Refined_Section \<lparr>section_id = 1, section_common_name = None\<rparr>,
      Refined_Section \<lparr>section_id = 2, section_common_name = None\<rparr>,
      Refined_SectionInLayout (slot 1 1 1),
      Refined_SectionInLayout (slot 2 1 2),
      Refined_SectionInLayout (slot 1 2 1),
      Refined_Table table_5]"

definition placed_original :: original_db where
  "placed_original =
     empty_original
       \<lparr>o_Table := [table_5],
        o_Layout := [\<lparr>layout_id = 1, layout_common_name = Some ''A''\<rparr>,
                     \<lparr>layout_id = 2, layout_common_name = Some ''B''\<rparr>],
        o_Section := [\<lparr>section_id = 1, section_common_name = None\<rparr>,
                      \<lparr>section_id = 2, section_common_name = None\<rparr>],
        o_SectionInLayout := [slot 1 1 1, slot 2 1 2, slot 1 2 1],
        o_TableInSection := [placement 5 1 1, placement 5 1 2, placement 5 2 1]\<rparr>"

definition placed_refined :: refined_db where
  "placed_refined =
     empty_refined
       \<lparr>r_Table := [table_5],
        r_Layout := [\<lparr>layout_id = 1, layout_common_name = Some ''A''\<rparr>,
                     \<lparr>layout_id = 2, layout_common_name = Some ''B''\<rparr>],
        r_Section := [\<lparr>section_id = 1, section_common_name = None\<rparr>,
                      \<lparr>section_id = 2, section_common_name = None\<rparr>],
        r_SectionInLayout := [slot 1 1 1, slot 2 1 2, slot 1 2 1],
        r_TableInSection := [placement 5 1 1, placement 5 1 2, placement 5 2 1]\<rparr>"

section \<open>Hosts\<close>

text \<open>
  Two properties of a host's time zone. No local time is skipped: every local time \<open>t\<close>
  is the local time of the instant it is read as, \<open>LocalTime(UTC(t)) = t\<close>; a zone with a
  fixed offset is one, a zone whose clocks are put forward is not. Offsets stay within a
  day.
\<close>

definition no_skipped_local_time :: "js_env \<Rightarrow> bool" where
  "no_skipped_local_time env = (\<forall>t. LocalTime env (UTC env t) = t)"

definition offsets_within_a_day :: "js_env \<Rightarrow> bool" where
  "offsets_within_a_day env = (\<forall>t. \<bar>LocalTZA env t False\<bar> \<le> msPerDay)"

text \<open>
  The local time a date-time string names, as a time value: what \<open>new Date\<close> builds from
  the fields before it converts to UTC.
\<close>

definition local_time_written :: "string \<Rightarrow> int" where
  "local_time_written s =
     MakeDate (MakeDay (field_year s) (field_month s - 1) (field_day s))
              (MakeTime (field_hour s) (field_minute s) (field_second s) 0)"

text \<open>
  The host reads a string back as written: the local time the string names, taken to
  UTC, is a time value in the range of a \<open>Date\<close>, and the local time of that instant is
  the second the string names. A local time that a forward clock change skips is not
  read back as written: the instant it is read as has a later local time.
\<close>

definition read_back_as_written :: "js_env \<Rightarrow> string \<Rightarrow> bool" where
  "read_back_as_written env s =
     (case TimeClip (UTC env (local_time_written s)) of
        None \<Rightarrow> False
      | Some tv \<Rightarrow> LocalTime env tv div msPerSecond = local_time_written s div msPerSecond)"

text \<open>A host on UTC that reads no string outside the modelled form; and a host in the zone
  America/New_York around 2024-03-10, where the offset is five hours (Eastern Standard
  Time) before 07:00 UTC and four hours (Eastern Daylight Time) from then on: the local
  clocks go from 02:00 to 03:00, and the local times from 02:00 up to 03:00 are skipped.
  The time value \<open>1710054000000\<close> is 2024-03-10 07:00 UTC; read as a local time,
  \<open>1710039600000\<close> is 03:00 on that day.\<close>

definition utc_zone :: js_env where
  "utc_zone = \<lparr>LocalTZA = (\<lambda>t isUTC. 0), fallback_parse = (\<lambda>s. None)\<rparr>"

definition new_york_march_2024 :: js_env where
  "new_york_march_2024 =
     \<lparr>LocalTZA =
        (\<lambda>t isUTC.
           if isUTC then (if t < 1710054000000 then - 18000000 else - 14400000)
           else (if t < 1710039600000 then - 18000000 else - 14400000)),
      fallback_parse = (\<lambda>s. None)\<rparr>"

text \<open>A data source that answers with an empty list, one that cannot be reached, and one
  that answers with status 500.\<close>

definition answering :: network where
  "answering =
     \<lparr>apiUri = ''http://localhost:5000'', fetch = (\<lambda>url. Response True 200 (Some ''[]''))\<rparr>"

definition unreachable :: network where
  "unreachable = \<lparr>apiUri = ''http://localhost:5000'', fetch = (\<lambda>url. NetworkFailure)\<rparr>"

definition refusing :: network where
  "refusing =
     \<lparr>apiUri = ''http://localhost:5000'', fetch = (\<lambda>url. Response False 500 None)\<rparr>"

section \<open>The claims about the store\<close>

text \<open>
  Claim C1: for every table and every exact reservation date-time, at most one
  reservation occupies that table at that time, guaranteed by \<open>ReservationAtTable\<close>.
  The primary key of \<open>ReservationAtTable\<close> is the whole row, reservation included, so
  the store takes two reservations of two customers at table 5 for the same date-time:
  the script below runs through, and the table it leaves has two reservations for
  (table 5, 2024-06-01 18:00:00).
\<close>

theorem ReservationAtTable_takes_two_reservations_at_one_time:
  "run_refined empty_refined
     [Refined_Customer ann_lee, Refined_Customer ann_ray,
      Refined_Reservation (booking 1 1 ''2024-06-01 18:00:00''),
      Refined_Reservation (booking 2 2 ''2024-06-01 18:00:00''),
      Refined_Table table_5,
      Refined_ReservationAtTable (assignment 1 ''2024-06-01 18:00:00'' 5),
      Refined_ReservationAtTable (assignment 2 ''2024-06-01 18:00:00'' 5)]
     = Inr double_booked
   \<and> \<not> one_reservation_per_table_and_time (r_ReservationAtTable double_booked)"
  by (simp add: violation_defs example_defs double_booked_def
        one_reservation_per_table_and_time_def)

text \<open>
  Claim C3: every stored Table satisfies \<open>tl.x < tr.x\<close>, \<open>bl.x < br.x\<close>, \<open>tl.y > bl.y\<close>,
  \<open>tr.y > br.y\<close>; a Table violating one of them is refused and a Table satisfying all
  four is accepted. The constraint compares \<open>bl_x\<close> with \<open>br_y\<close>: in both variants the
  table of Scenario A, which satisfies the four inequalities, is refused, and a table
  with \<open>bl.x > br.x\<close> is stored.
\<close>

theorem Table_CHECK_compares_bl_x_with_br_y:
  "corner_ordering scenario_A_table
   \<and> insert_original empty_original (Original_Table scenario_A_table) = Inl CheckViolation
   \<and> insert_refined empty_refined (Refined_Table scenario_A_table) = Inl CheckViolation
   \<and> \<not> corner_ordering crossed_table
   \<and> insert_original empty_original (Original_Table crossed_table)
       = Inr (empty_original\<lparr>o_Table := [crossed_table]\<rparr>)
   \<and> insert_refined empty_refined (Refined_Table crossed_table)
       = Inr (empty_refined\<lparr>r_Table := [crossed_table]\<rparr>)"
  by (simp add: corner_ordering_def violation_defs example_defs)

text \<open>
  Claim C4: within one Layout a Table is placed in at most one Section: after placing a
  table into one slot, placing it into another section of the same layout fails, while
  placing it into a section of another layout succeeds. The primary key of
  \<open>TableInSection\<close> is the whole row, section number included: in both variants table 5
  goes into sections 1 and 2 of layout A (and into section 1 of layout B).
\<close>

theorem TableInSection_takes_two_sections_of_one_layout:
  "run_original empty_original
     (floor_plan_original @
      [Original_TableInSection (placement 5 1 1),
       Original_TableInSection (placement 5 1 2),
       Original_TableInSection (placement 5 2 1)])
     = Inr placed_original
   \<and> \<not> one_section_per_layout (o_TableInSection placed_original)
   \<and> run_refined empty_refined
     (floor_plan_refined @
      [Refined_TableInSection (placement 5 1 1),
       Refined_TableInSection (placement 5 1 2),
       Refined_TableInSection (placement 5 2 1)])
     = Inr placed_refined
   \<and> \<not> one_section_per_layout (r_TableInSection placed_refined)"
  by (simp add: violation_defs example_defs floor_plan_original_def floor_plan_refined_def
        placed_original_def placed_refined_def one_section_per_layout_def)

text \<open>
  Claim C6: a customer has at most one Reservation at any exact date-time: inserting a
  second Reservation of the same customer for the identical \<open>reservation_datetime\<close>
  fails, and every operation that creates reservations keeps this. In both variants, in
  every database that \<open>INSERT\<close>s can build, no two stored reservations share customer and
  date-time; an \<open>INSERT\<close> of a reservation whose customer and date-time are those of a
  stored one fails; and after any \<open>INSERT\<close> that succeeds, still no two stored
  reservations share customer and date-time.
\<close>

theorem one_reservation_per_customer_and_datetime:
  assumes "reachable_original odb" and "reachable_refined rdb"
    and "x \<in> set (o_Reservation odb)" and "booking_key r = booking_key x"
    and "x' \<in> set (r_Reservation rdb)" and "booking_key r' = booking_key x'"
    and "insert_original odb i = Inr odb'" and "insert_refined rdb i' = Inr rdb'"
  shows "distinct (map booking_key (o_Reservation odb))
       \<and> distinct (map booking_key (r_Reservation rdb))
       \<and> isl (insert_original odb (Original_Reservation r))
       \<and> isl (insert_refined rdb (Refined_Reservation r'))
       \<and> distinct (map booking_key (o_Reservation odb'))
       \<and> distinct (map booking_key (r_Reservation rdb'))"
proof -
  have "booking_key r \<in> set (map booking_key (o_Reservation odb))"
    using assms(3,4) by force
  then have a: "isl (insert_original odb (Original_Reservation r))"
    using Reservation_original_duplicate [of r "o_Reservation odb"]
    by (auto simp: stored_def split: option.splits)
  have "booking_key r' \<in> set (map booking_key (r_Reservation rdb))"
    using assms(5,6) by force
  then have b: "isl (insert_refined rdb (Refined_Reservation r'))"
    using Reservation_refined_duplicate [of r' "r_Reservation rdb"]
    by (auto simp: stored_def split: option.splits)
  have "reachable_original odb'"
    using assms(1,7) by (rule reachable_original.original_insert)
  moreover have "reachable_refined rdb'"
    using assms(2,8) by (rule reachable_refined.refined_insert)
  ultimately show ?thesis
    using a b reachable_original_invariant [of odb] reachable_refined_invariant [of rdb]
      reachable_original_invariant [of odb'] reachable_refined_invariant [of rdb'] assms(1,2)
    by simp
qed

theorem one_reservation_per_customer_and_datetime_witness:
  "reachable_original booked_original \<and> reachable_refined example_refined
   \<and> booking_original 1 3 ''####-##-## ##:##:##'' \<in> set (o_Reservation booked_original)
   \<and> booking_key (booking_original 2 3 ''####-##-## ##:##:##'')
       = booking_key (booking_original 1 3 ''####-##-## ##:##:##'')
   \<and> booking 1 3 ''2024-06-01 18:00:00'' \<in> set (r_Reservation example_refined)
   \<and> booking_key (booking 2 3 ''2024-06-01 18:00:00'')
       = booking_key (booking 1 3 ''2024-06-01 18:00:00'')
   \<and> insert_original booked_original
         (Original_Reservation (booking_original 2 1 ''####-##-## ##:##:##''))
       = Inr (booked_original
               \<lparr>o_Reservation := [booking_original 1 3 ''####-##-## ##:##:##'',
                                   booking_original 2 1 ''####-##-## ##:##:##'']\<rparr>)
   \<and> insert_refined example_refined (Refined_Reservation (booking 2 3 ''2024-06-01 18:15:00''))
       = Inr (example_refined
               \<lparr>r_Reservation := [booking 1 3 ''2024-06-01 18:00:00'',
                                   booking 2 3 ''2024-06-01 18:15:00'']\<rparr>)
   \<and> distinct (map booking_key (o_Reservation booked_original))
   \<and> distinct (map booking_key (r_Reservation example_refined))
   \<and> isl (insert_original booked_original
             (Original_Reservation (booking_original 2 3 ''####-##-## ##:##:##'')))
   \<and> isl (insert_refined example_refined
             (Refined_Reservation (booking 2 3 ''2024-06-01 18:00:00'')))
   \<and> distinct (map booking_key
         [booking_original 1 3 ''####-##-## ##:##:##'',
          booking_original 2 1 ''####-##-## ##:##:##''])
   \<and> distinct (map booking_key
         [booking 1 3 ''2024-06-01 18:00:00'', booking 2 3 ''2024-06-01 18:15:00''])"
proof -
  have x: "booking_original 1 3 ''####-##-## ##:##:##'' \<in> set (o_Reservation booked_original)"
    by (simp add: booked_original_def empty_original_def)
  have r: "booking_key (booking_original 2 3 ''####-##-## ##:##:##'')
       = booking_key (booking_original 1 3 ''####-##-## ##:##:##'')"
    by (simp add: booking_key_def booking_original_def)
  have x': "booking 1 3 ''2024-06-01 18:00:00'' \<in> set (r_Reservation example_refined)"
    by (simp add: example_refined_def empty_refined_def)
  have r': "booking_key (booking 2 3 ''2024-06-01 18:00:00'')
       = booking_key (booking 1 3 ''2024-06-01 18:00:00'')"
    by (simp add: booking_key_def booking_def)
  have i: "insert_original booked_original
         (Original_Reservation (booking_original 2 1 ''####-##-## ##:##:##''))
       = Inr (booked_original
               \<lparr>o_Reservation := [booking_original 1 3 ''####-##-## ##:##:##'',
                                   booking_original 2 1 ''####-##-## ##:##:##'']\<rparr>)"
    by (simp add: violation_defs example_defs booked_original_def)
  have i': "insert_refined example_refined
         (Refined_Reservation (booking 2 3 ''2024-06-01 18:15:00''))
       = Inr (example_refined
               \<lparr>r_Reservation := [booking 1 3 ''2024-06-01 18:00:00'',
                                   booking 2 3 ''2024-06-01 18:15:00'']\<rparr>)"
    by (simp add: violation_defs example_defs example_refined_def)
  show ?thesis
    using one_reservation_per_customer_and_datetime
            [OF booked_original_reachable example_refined_reachable x r x' r' i i']
      booked_original_reachable example_refined_reachable x r x' r' i i'
    by simp
qed

text \<open>
  Claim C7: a customer is identified by the triple of first name, last name and phone
  number: two customers with the same phone number and different last names can both be
  created, and creating a customer whose triple is a stored customer's is refused as a
  duplicate. In both variants, whatever the stored customers \<open>rows\<close>: customers \<open>a\<close> and
  \<open>b\<close> with well-formed, equal phone numbers, different last names and new identifiers
  and triples are both stored; a customer \<open>c\<close> with the triple of a stored customer \<open>x\<close>
  and a new identifier is refused by the \<open>UNIQUE\<close> constraint; and no two stored customers
  share their triple.
\<close>

theorem customer_identity_is_name_and_phone:
  assumes "reachable_original odb" and "o_Customer odb = rows"
    and "reachable_refined rdb" and "r_Customer rdb = rows"
    and "Customer_CHECK a" and "Customer_CHECK b"
    and "phone_number a = phone_number b" and "last_name a \<noteq> last_name b"
    and "customer_id a \<noteq> customer_id b"
    and "customer_id a \<notin> set (map customer_id rows)"
    and "customer_id b \<notin> set (map customer_id rows)"
    and "customer_key a \<notin> set (map customer_key rows)"
    and "customer_key b \<notin> set (map customer_key rows)"
    and "x \<in> set rows" and "customer_key c = customer_key x"
    and "customer_id c \<notin> set (map customer_id rows)"
  shows "run_original odb [Original_Customer a, Original_Customer b]
           = Inr (odb\<lparr>o_Customer := rows @ [a, b]\<rparr>)
       \<and> run_refined rdb [Refined_Customer a, Refined_Customer b]
           = Inr (rdb\<lparr>r_Customer := rows @ [a, b]\<rparr>)
       \<and> insert_original odb (Original_Customer c) = Inl UniqueViolation
       \<and> insert_refined rdb (Refined_Customer c) = Inl UniqueViolation
       \<and> distinct (map customer_key rows)"
proof -
  have ab: "customer_key b \<noteq> customer_key a"
    using assms(8) by (auto simp: customer_key_def)
  have va: "Customer_violation rows a = None"
    using assms by (simp add: Customer_accepted)
  have vb: "Customer_violation (rows @ [a]) b = None"
    using assms ab by (simp add: Customer_accepted)
  have checked: "list_all Customer_CHECK rows" and dist: "distinct (map customer_key rows)"
    using reachable_refined_invariant [OF assms(3)] assms(4) by auto
  have "Customer_CHECK x"
    using checked assms(14) by (simp add: list_all_iff)
  then have "Customer_CHECK c"
    using assms(15) by (simp add: Customer_CHECK_def customer_key_def)
  moreover have "customer_key c \<in> set (map customer_key rows)"
    using assms(14,15) by force
  ultimately have vc: "Customer_violation rows c = Some UniqueViolation"
    using assms(16) by (simp add: Customer_violation_def)
  show ?thesis
    using va vb vc dist assms(2,4) by (simp add: stored_def)
qed

theorem customer_identity_is_name_and_phone_witness:
  "reachable_original example_original \<and> o_Customer example_original = [joe_fox]
   \<and> reachable_refined example_refined \<and> r_Customer example_refined = [joe_fox]
   \<and> Customer_CHECK ann_lee \<and> Customer_CHECK ann_ray
   \<and> phone_number ann_lee = phone_number ann_ray \<and> last_name ann_lee \<noteq> last_name ann_ray
   \<and> customer_id ann_lee \<noteq> customer_id ann_ray
   \<and> customer_id ann_lee \<notin> set (map customer_id [joe_fox])
   \<and> customer_id ann_ray \<notin> set (map customer_id [joe_fox])
   \<and> customer_key ann_lee \<notin> set (map customer_key [joe_fox])
   \<and> customer_key ann_ray \<notin> set (map customer_key [joe_fox])
   \<and> joe_fox \<in> set [joe_fox]
   \<and> customer_key (joe_fox\<lparr>customer_id := 9\<rparr>) = customer_key joe_fox
   \<and> customer_id (joe_fox\<lparr>customer_id := 9\<rparr>) \<notin> set (map customer_id [joe_fox])
   \<and> run_original example_original [Original_Customer ann_lee, Original_Customer ann_ray]
       = Inr (example_original\<lparr>o_Customer := [joe_fox] @ [ann_lee, ann_ray]\<rparr>)
   \<and> run_refined example_refined [Refined_Customer ann_lee, Refined_Customer ann_ray]
       = Inr (example_refined\<lparr>r_Customer := [joe_fox] @ [ann_lee, ann_ray]\<rparr>)
   \<and> insert_original example_original (Original_Customer (joe_fox\<lparr>customer_id := 9\<rparr>))
       = Inl UniqueViolation
   \<and> insert_refined example_refined (Refined_Customer (joe_fox\<lparr>customer_id := 9\<rparr>))
       = Inl UniqueViolation
   \<and> distinct (map customer_key [joe_fox])"
proof -
  have o: "o_Customer example_original = [joe_fox]"
    by (simp add: example_original_def empty_original_def)
  have r: "r_Customer example_refined = [joe_fox]"
    by (simp add: example_refined_def empty_refined_def)
  have ca: "Customer_CHECK ann_lee" and cb: "Customer_CHECK ann_ray"
    by (simp_all add: Customer_CHECK_def GLOB_def in_items_def ann_lee_def ann_ray_def)
  have h1: "phone_number ann_lee = phone_number ann_ray"
    and h2: "last_name ann_lee \<noteq> last_name ann_ray"
    and h3: "customer_id ann_lee \<noteq> customer_id ann_ray"
    and h4: "customer_id ann_lee \<notin> set (map customer_id [joe_fox])"
    and h5: "customer_id ann_ray \<notin> set (map customer_id [joe_fox])"
    and h6: "customer_key ann_lee \<notin> set (map customer_key [joe_fox])"
    and h7: "customer_key ann_ray \<notin> set (map customer_key [joe_fox])"
    and h8: "joe_fox \<in> set [joe_fox]"
    and h9: "customer_key (joe_fox\<lparr>customer_id := 9\<rparr>) = customer_key joe_fox"
    and h10: "customer_id (joe_fox\<lparr>customer_id := 9\<rparr>) \<notin> set (map customer_id [joe_fox])"
    by (simp_all add: ann_lee_def ann_ray_def joe_fox_def customer_key_def)
  show ?thesis
    using customer_identity_is_name_and_phone
            [OF example_original_reachable o example_refined_reachable r
                ca cb h1 h2 h3 h4 h5 h6 h7 h8 h9 h10]
      example_original_reachable example_refined_reachable o r ca cb h1 h2 h3 h4 h5 h6 h7 h8 h9 h10
    by simp
qed

text \<open>
  Claim C8: the two variants admit the same \<open>reservation_datetime\<close> strings, exactly those
  of the digit pattern \<open>YYYY-MM-DD HH:MM:SS\<close>. The refined variant's pattern admits exactly
  these. The original variant's pattern is written with \<open>#\<close>, which \<open>GLOB\<close> reads as the
  character itself: it admits the one string \<open>####-##-## ##:##:##\<close> and refuses
  \<open>2024-06-01 18:00:00\<close>, which the refined variant admits.
\<close>

theorem datetime_patterns_of_the_two_variants:
  "(\<forall>s. GLOB s datetime_glob_refined = digit_pattern CHR '' '' s)
   \<and> (\<forall>s. GLOB s datetime_glob_original = (s = ''####-##-## ##:##:##''))
   \<and> digit_pattern CHR '' '' ''2024-06-01 18:00:00''
   \<and> Reservation_CHECK_refined (booking 1 1 ''2024-06-01 18:00:00'')
   \<and> \<not> Reservation_CHECK_original (booking 1 1 ''2024-06-01 18:00:00'')"
proof -
  have "digit_pattern CHR '' '' ''2024-06-01 18:00:00''"
    and "digit_pattern CHR '' '' ''2024-05-01 09:00:00''"
    by (simp_all add: digit_pattern_def is_digit_def)
  then show ?thesis
    by (simp add: GLOB_refined GLOB_original Reservation_CHECK_refined_def
          Reservation_CHECK_original_def booking_def)
qed

section \<open>Properties of the date-time utilities\<close>

subsection \<open>Strings\<close>

lemma regex_datetime_elems: "regex = datetime_elems CHR ''T''"
  by (simp add: regex_def datetime_elems_def)

lemma regex_digit_pattern: "matches_pattern regex s = digit_pattern CHR ''T'' s"
  by (simp add: regex_datetime_elems matches_datetime_elems)

lemma digit_not_separator:
  "is_digit c \<Longrightarrow> c \<noteq> CHR ''T'' \<and> c \<noteq> CHR ''-'' \<and> c \<noteq> CHR '':''"
  by (auto simp: is_digit_def)

lemma digit_value_range: "is_digit c \<Longrightarrow> 0 \<le> digit_value c \<and> digit_value c \<le> 9"
  by (auto simp: is_digit_def digit_value_def)

lemma digits_value_2: "digits_value [a, b] = 10 * digit_value a + digit_value b"
  by (simp add: digits_value_def)

lemma digits_value_4:
  "digits_value [a, b, c, d] =
     1000 * digit_value a + 100 * digit_value b + 10 * digit_value c + digit_value d"
  by (simp add: digits_value_def)

lemma two_digits_range:
  "is_digit a \<Longrightarrow> is_digit b \<Longrightarrow> 0 \<le> digits_value [a, b] \<and> digits_value [a, b] \<le> 99"
  using digit_value_range [of a] digit_value_range [of b] by (simp add: digits_value_2)

lemma four_digits_range:
  "is_digit a \<Longrightarrow> is_digit b \<Longrightarrow> is_digit c \<Longrightarrow> is_digit d \<Longrightarrow>
     0 \<le> digits_value [a, b, c, d] \<and> digits_value [a, b, c, d] \<le> 9999"
  using digit_value_range [of a] digit_value_range [of b] digit_value_range [of c]
    digit_value_range [of d]
  by (simp add: digits_value_4)

lemmas field_defs =
  field_year_def field_month_def field_day_def field_hour_def field_minute_def field_second_def

lemma regex_explicit:
  assumes "matches_pattern regex s"
  obtains y1 y2 y3 y4 m1 m2 d1 d2 h1 h2 i1 i2 s1 s2 where
    "s = [y1, y2, y3, y4, CHR ''-'', m1, m2, CHR ''-'', d1, d2, CHR ''T'',
          h1, h2, CHR '':'', i1, i2, CHR '':'', s1, s2]"
    "is_digit y1" "is_digit y2" "is_digit y3" "is_digit y4" "is_digit m1" "is_digit m2"
    "is_digit d1" "is_digit d2" "is_digit h1" "is_digit h2" "is_digit i1" "is_digit i2"
    "is_digit s1" "is_digit s2"
proof -
  from assms have d: "digit_pattern CHR ''T'' s" by (simp add: regex_digit_pattern)
  then have "length s = 19" by (simp add: digit_pattern_def)
  then obtain c0 c1 c2 c3 c4 c5 c6 c7 c8 c9 c10 c11 c12 c13 c14 c15 c16 c17 c18
    where s: "s = [c0, c1, c2, c3, c4, c5, c6, c7, c8, c9, c10, c11, c12, c13, c14, c15, c16, c17, c18]"
    using length_19_explicit by blast
  from d have "c4 = CHR ''-''" "c7 = CHR ''-''" "c10 = CHR ''T''" "c13 = CHR '':''" "c16 = CHR '':''"
    "is_digit c0" "is_digit c1" "is_digit c2" "is_digit c3" "is_digit c5" "is_digit c6"
    "is_digit c8" "is_digit c9" "is_digit c11" "is_digit c12" "is_digit c14" "is_digit c15"
    "is_digit c17" "is_digit c18"
    unfolding s by (simp_all add: digit_pattern_def)
  with s that show thesis by blast
qed

lemma fields_range:
  assumes "matches_pattern regex s"
  shows "0 \<le> field_year s \<and> field_year s \<le> 9999"
    and "0 \<le> field_month s \<and> field_month s \<le> 99"
    and "0 \<le> field_day s \<and> field_day s \<le> 99"
    and "0 \<le> field_hour s \<and> field_hour s \<le> 99"
    and "0 \<le> field_minute s \<and> field_minute s \<le> 99"
    and "0 \<le> field_second s \<and> field_second s \<le> 99"
proof -
  from assms obtain y1 y2 y3 y4 m1 m2 d1 d2 h1 h2 i1 i2 s1 s2 where
    s: "s = [y1, y2, y3, y4, CHR ''-'', m1, m2, CHR ''-'', d1, d2, CHR ''T'',
          h1, h2, CHR '':'', i1, i2, CHR '':'', s1, s2]"
    and dg: "is_digit y1" "is_digit y2" "is_digit y3" "is_digit y4" "is_digit m1" "is_digit m2"
    "is_digit d1" "is_digit d2" "is_digit h1" "is_digit h2" "is_digit i1" "is_digit i2"
    "is_digit s1" "is_digit s2"
    using regex_explicit [of s] by metis
  have f: "field_year s = digits_value [y1, y2, y3, y4]" "field_month s = digits_value [m1, m2]"
    "field_day s = digits_value [d1, d2]" "field_hour s = digits_value [h1, h2]"
    "field_minute s = digits_value [i1, i2]" "field_second s = digits_value [s1, s2]"
    by (simp_all add: field_defs s)
  show "0 \<le> field_year s \<and> field_year s \<le> 9999"
    unfolding f using dg(1-4) by (rule four_digits_range)
  show "0 \<le> field_month s \<and> field_month s \<le> 99"
    unfolding f using dg(5,6) by (rule two_digits_range)
  show "0 \<le> field_day s \<and> field_day s \<le> 99"
    unfolding f using dg(7,8) by (rule two_digits_range)
  show "0 \<le> field_hour s \<and> field_hour s \<le> 99"
    unfolding f using dg(9,10) by (rule two_digits_range)
  show "0 \<le> field_minute s \<and> field_minute s \<le> 99"
    unfolding f using dg(11,12) by (rule two_digits_range)
  show "0 \<le> field_second s \<and> field_second s \<le> 99"
    unfolding f using dg(13,14) by (rule two_digits_range)
qed

subsection \<open>The calendar\<close>

text \<open>\<open>YearFromTime\<close> is the year the standard defines.\<close>

lemma year_search_bounds:
  "DayFromYear (year_search d y) \<le> d \<and> d < DayFromYear (year_search d y + 1)"
proof (induction d y rule: year_search.induct)
  case (1 d y)
  then show ?case by (subst (1 2) year_search.simps) auto
qed

lemma year_unique:
  assumes "DayFromYear y \<le> d" "d < DayFromYear (y + 1)"
      and "DayFromYear y' \<le> d" "d < DayFromYear (y' + 1)"
  shows "y = y'"
proof (rule ccontr)
  assume "y \<noteq> y'"
  then consider "y + 1 \<le> y'" | "y' + 1 \<le> y" by linarith
  then show False
  proof cases
    case 1
    from DayFromYear_mono [OF 1] assms show False by linarith
  next
    case 2
    from DayFromYear_mono [OF 2] assms show False by linarith
  qed
qed

lemma YearFromTime_bounds:
  "TimeFromYear (YearFromTime t) \<le> t \<and> t < TimeFromYear (YearFromTime t + 1)"
proof -
  let ?y = "YearFromTime t"
  define q r where "q = t div 86400000" and "r = t mod 86400000"
  have t: "t = 86400000 * q + r" and r: "0 \<le> r" "r < 86400000"
    by (simp_all add: q_def r_def)
  have "DayFromYear ?y \<le> q" "q < DayFromYear (?y + 1)"
    using year_search_bounds [of "Day t" "1970 + Day t div 365"]
    by (simp_all add: YearFromTime_def Day_def msPerDay_def q_def)
  then show ?thesis
    using t r by (simp add: TimeFromYear_def msPerDay_def)
qed

lemma YearFromTime_eq:
  "DayFromYear y \<le> Day t \<Longrightarrow> Day t < DayFromYear (y + 1) \<Longrightarrow> YearFromTime t = y"
  unfolding YearFromTime_def
  using year_search_bounds [of "Day t" "1970 + Day t div 365"] year_unique by blast

lemma Day_MakeDate:
  "0 \<le> time \<Longrightarrow> time < msPerDay \<Longrightarrow> Day (MakeDate day time) = day"
proof -
  assume a: "0 \<le> time" "time < msPerDay"
  have "MakeDate day time = msPerDay * day + time" by (simp add: MakeDate_def)
  from int_div_pos_eq [OF this a] show ?thesis by (simp add: Day_def)
qed

lemma time_fields_ms:
  assumes "0 \<le> h" "h \<le> 23" "0 \<le> mi" "mi \<le> 59" "0 \<le> sec" "sec \<le> 59"
    and r: "0 \<le> r" "r < 1000"
  shows "HourFromTime (MakeDate day (MakeTime h mi sec 0 + r)) = h"
    and "MinFromTime (MakeDate day (MakeTime h mi sec 0 + r)) = mi"
    and "SecFromTime (MakeDate day (MakeTime h mi sec 0 + r)) = sec"
    and "0 \<le> MakeTime h mi sec 0 + r" and "MakeTime h mi sec 0 + r < msPerDay"
proof -
  let ?t = "MakeDate day (MakeTime h mi sec 0 + r)"
  define H M S where "H = 24 * day + h" and "M = 60 * H + mi" and "S = 60 * M + sec"
  have eh: "?t = 3600000 * H + (60000 * mi + 1000 * sec + r)"
    by (simp add: H_def MakeDate_def MakeTime_def msPerDay_def msPerHour_def msPerMinute_def
          msPerSecond_def)
  have em: "?t = 60000 * M + (1000 * sec + r)"
    by (simp add: eh M_def)
  have es: "?t = 1000 * S + r"
    by (simp add: em S_def)
  have "?t div 3600000 = H"
    using assms by (intro int_div_pos_eq [OF eh]) simp_all
  moreover have "H mod 24 = h"
    using assms by (intro int_mod_pos_eq [of _ _ day]) (simp_all add: H_def)
  ultimately show "HourFromTime ?t = h"
    by (simp add: HourFromTime_def msPerHour_def)
  have "?t div 60000 = M"
    using assms by (intro int_div_pos_eq [OF em]) simp_all
  moreover have "M mod 60 = mi"
    using assms by (intro int_mod_pos_eq [of _ _ H]) (simp_all add: M_def)
  ultimately show "MinFromTime ?t = mi"
    by (simp add: MinFromTime_def msPerMinute_def)
  have "?t div 1000 = S"
    using r by (intro int_div_pos_eq [OF es]) simp_all
  moreover have "S mod 60 = sec"
    using assms by (intro int_mod_pos_eq [of _ _ M]) (simp_all add: S_def)
  ultimately show "SecFromTime ?t = sec"
    by (simp add: SecFromTime_def msPerSecond_def)
  show "0 \<le> MakeTime h mi sec 0 + r" "MakeTime h mi sec 0 + r < msPerDay"
    using assms
    by (simp_all add: MakeTime_def msPerDay_def msPerHour_def msPerMinute_def msPerSecond_def)
qed

lemma time_fields:
  assumes "0 \<le> h" "h \<le> 23" "0 \<le> mi" "mi \<le> 59" "0 \<le> sec" "sec \<le> 59"
  shows "HourFromTime (MakeDate day (MakeTime h mi sec 0)) = h"
    and "MinFromTime (MakeDate day (MakeTime h mi sec 0)) = mi"
    and "SecFromTime (MakeDate day (MakeTime h mi sec 0)) = sec"
    and "0 \<le> MakeTime h mi sec 0" and "MakeTime h mi sec 0 < msPerDay"
  using time_fields_ms [OF assms, where r = 0] by simp_all

lemma MakeDay_in_year:
  assumes "1 \<le> mo" "mo \<le> 12"
  shows "MakeDay y (mo - 1) d =
           DayFromYear y + month_start (if DaysInYear y = 365 then 0 else 1) (mo - 1) + d - 1"
proof -
  have "(mo - 1) div 12 = 0" "(mo - 1) mod 12 = mo - 1"
    using assms by simp_all
  then show ?thesis by (simp add: MakeDay_def)
qed

lemma month_cases:
  "1 \<le> (mo::int) \<Longrightarrow> mo \<le> 12 \<Longrightarrow>
     mo = 1 \<or> mo = 2 \<or> mo = 3 \<or> mo = 4 \<or> mo = 5 \<or> mo = 6 \<or> mo = 7 \<or> mo = 8 \<or> mo = 9
     \<or> mo = 10 \<or> mo = 11 \<or> mo = 12"
  by arith

lemma leap_year_DaysInYear: "leap_year y \<longleftrightarrow> DaysInYear y = 366"
  using mod400_mod100 [of y] mod100_mod4 [of y]
  by (auto simp: leap_year_def DaysInYear_def)

lemma month_start_within_year:
  assumes "1 \<le> mo" "mo \<le> 12" "1 \<le> d" "d \<le> 31"
  shows "0 \<le> month_start (if DaysInYear y = 365 then 0 else 1) (mo - 1) + d - 1"
    and "month_start (if DaysInYear y = 365 then 0 else 1) (mo - 1) + d - 1 < DaysInYear y"
  using month_cases [OF assms(1,2)] DaysInYear_cases [of y] assms(3,4)
  by (auto simp: month_start_def)

lemma calendar_fields:
  assumes mo: "1 \<le> mo" "mo \<le> 12" and d: "1 \<le> d" "d \<le> 31"
    and time: "0 \<le> time" "time < msPerDay"
  shows "YearFromTime (MakeDate (MakeDay y (mo - 1) d) time) = y"
    and "(MonthFromTime (MakeDate (MakeDay y (mo - 1) d) time) + 1 = mo
          \<and> DateFromTime (MakeDate (MakeDay y (mo - 1) d) time) = d)
         \<longleftrightarrow> d \<le> days_in_month y mo"
proof -
  let ?t = "MakeDate (MakeDay y (mo - 1) d) time"
  define L :: int where "L = (if DaysInYear y = 365 then 0 else 1)"
  define k where "k = month_start L (mo - 1) + d - 1"
  have day: "Day ?t = DayFromYear y + k"
    using Day_MakeDate [OF time] MakeDay_in_year [OF mo] by (simp add: k_def L_def)
  have k: "0 \<le> k" "k < DaysInYear y"
    using month_start_within_year [OF mo d, of y] by (simp_all add: k_def L_def)
  show year: "YearFromTime ?t = y"
    using day k by (intro YearFromTime_eq) (simp_all add: DayFromYear_next)
  have dwy: "DayWithinYear ?t = k"
    by (simp add: DayWithinYear_def year day)
  have leap: "InLeapYear ?t = L"
    by (simp add: InLeapYear_def year L_def)
  have L: "L = 0 \<and> \<not> leap_year y \<or> L = 1 \<and> leap_year y"
    using DaysInYear_cases [of y] by (auto simp: L_def leap_year_DaysInYear)
  have month: "MonthFromTime ?t =
      (if k < 31 then 0 else if k < 59 + L then 1 else if k < 90 + L then 2
       else if k < 120 + L then 3 else if k < 151 + L then 4 else if k < 181 + L then 5
       else if k < 212 + L then 6 else if k < 243 + L then 7 else if k < 273 + L then 8
       else if k < 304 + L then 9 else if k < 334 + L then 10 else 11)"
    by (simp only: MonthFromTime_def Let_def dwy leap)
  have date: "DateFromTime ?t =
      (let m = MonthFromTime ?t in
       if m = 0 then k + 1 else if m = 1 then k - 30 else if m = 2 then k - 58 - L
       else if m = 3 then k - 89 - L else if m = 4 then k - 119 - L
       else if m = 5 then k - 150 - L else if m = 6 then k - 180 - L
       else if m = 7 then k - 211 - L else if m = 8 then k - 242 - L
       else if m = 9 then k - 272 - L else if m = 10 then k - 303 - L else k - 333 - L)"
    by (simp only: DateFromTime_def Let_def dwy leap)
  from month_cases [OF mo] L d
  show "(MonthFromTime ?t + 1 = mo \<and> DateFromTime ?t = d) \<longleftrightarrow> d \<le> days_in_month y mo"
    unfolding date month k_def
    by (elim disjE conjE) (simp_all add: month_start_def days_in_month_def)
qed

text \<open>\<open>MakeDay\<close> starts from the first day of the month, as the standard asks.\<close>

lemma MakeDay_first_of_month:
  assumes "1 \<le> mo" "mo \<le> 12"
  shows "YearFromTime (MakeDate (MakeDay y (mo - 1) 1) 0) = y
       \<and> MonthFromTime (MakeDate (MakeDay y (mo - 1) 1) 0) = mo - 1
       \<and> DateFromTime (MakeDate (MakeDay y (mo - 1) 1) 0) = 1"
proof -
  have "(1::int) \<le> days_in_month y mo"
    by (simp add: days_in_month_def)
  then show ?thesis
    using calendar_fields [OF assms, of 1 0 y] by (simp add: msPerDay_def)
qed

lemma no_february_30: "MonthFromTime t = 1 \<Longrightarrow> DateFromTime t \<le> 29"
  by (auto simp: MonthFromTime_def DateFromTime_def Let_def InLeapYear_def split: if_splits)

text \<open>Every time value is the one \<open>MakeDate\<close>, \<open>MakeDay\<close> and \<open>MakeTime\<close> build from its
  own fields, up to its milliseconds; and its date is a day its month has.\<close>

lemma time_of_its_fields:
  "MakeDate (Day t) (MakeTime (HourFromTime t) (MinFromTime t) (SecFromTime t) 0)
     = t - t mod 1000"
proof -
  define q a b where "q = t div 1000" and "a = q div 60" and "b = a div 60"
  have m: "t div 60000 = a"
    using zdiv_zmult2_eq [of 60 t 1000] by (simp add: a_def q_def)
  have h: "t div 3600000 = b"
    using zdiv_zmult2_eq [of 60 t 60000] by (simp add: m b_def)
  have d: "t div 86400000 = b div 24"
    using zdiv_zmult2_eq [of 24 t 3600000] by (simp add: h)
  have 1: "t - t mod 1000 = 1000 * q"
    by (simp add: q_def minus_mod_eq_mult_div)
  have 2: "q = 60 * a + q mod 60"
    by (simp add: a_def)
  have 3: "a = 60 * b + a mod 60"
    by (simp add: b_def)
  have 4: "b = 24 * (b div 24) + b mod 24"
    by simp
  have "MakeDate (Day t) (MakeTime (HourFromTime t) (MinFromTime t) (SecFromTime t) 0)
      = 86400000 * (b div 24) + 3600000 * (b mod 24) + 60000 * (a mod 60) + 1000 * (q mod 60)"
    by (simp add: MakeDate_def MakeTime_def Day_def HourFromTime_def MinFromTime_def
          SecFromTime_def msPerDay_def msPerHour_def msPerMinute_def msPerSecond_def m h d
          q_def [symmetric])
  also have "\<dots> = 1000 * q"
    using 2 3 4 by linarith
  finally show ?thesis by (simp add: 1)
qed

lemma DayWithinYear_range:
  "0 \<le> DayWithinYear t \<and> DayWithinYear t < DaysInYear (YearFromTime t)"
  using year_search_bounds [of "Day t" "1970 + Day t div 365"]
  by (simp add: DayWithinYear_def YearFromTime_def DayFromYear_next)

lemma day_of_its_fields:
  "MakeDay (YearFromTime t) (MonthFromTime t) (DateFromTime t) = Day t"
proof -
  define k L where "k = DayWithinYear t" and "L = InLeapYear t"
  have k: "0 \<le> k" "k < DaysInYear (YearFromTime t)"
    using DayWithinYear_range [of t] by (simp_all add: k_def)
  have L: "L = (if DaysInYear (YearFromTime t) = 365 then 0 else 1)"
    by (simp add: L_def InLeapYear_def)
  have m: "0 \<le> MonthFromTime t" "MonthFromTime t \<le> 11"
    by (simp_all add: MonthFromTime_def Let_def)
  then have dm: "MonthFromTime t div 12 = 0" "MonthFromTime t mod 12 = MonthFromTime t"
    by simp_all
  have "month_start L (MonthFromTime t) + DateFromTime t - 1 = k"
    by (simp add: MonthFromTime_def DateFromTime_def Let_def month_start_def
          k_def [symmetric] L_def [symmetric])
  then have "DayFromYear (YearFromTime t) + month_start L (MonthFromTime t) + DateFromTime t - 1
      = Day t"
    by (simp add: k_def DayWithinYear_def)
  then show ?thesis
    by (simp add: MakeDay_def dm L)
qed

lemma date_in_its_month:
  "1 \<le> DateFromTime t \<and> DateFromTime t \<le> days_in_month (YearFromTime t) (MonthFromTime t + 1)"
proof -
  define k L where "k = DayWithinYear t" and "L = InLeapYear t"
  have k: "0 \<le> k" "k < DaysInYear (YearFromTime t)"
    using DayWithinYear_range [of t] by (simp_all add: k_def)
  have L: "L = 0 \<and> \<not> leap_year (YearFromTime t) \<and> k < 365
         \<or> L = 1 \<and> leap_year (YearFromTime t) \<and> k < 366"
    using DaysInYear_cases [of "YearFromTime t"] k
    by (auto simp: L_def InLeapYear_def leap_year_DaysInYear)
  show ?thesis
    using k(1) L
    by (auto simp: MonthFromTime_def DateFromTime_def Let_def days_in_month_def
          k_def [symmetric] L_def [symmetric])
qed

lemma DayFromYear_0: "DayFromYear 0 = - 719528"
  by (simp add: DayFromYear_def)

lemma DayFromYear_9999: "DayFromYear 9999 = 2932532"
  by (simp add: DayFromYear_def)

lemma TimeClip_local:
  assumes y: "0 \<le> y" "y \<le> 9999" and mo: "1 \<le> mo" "mo \<le> 12" and d: "1 \<le> d" "d \<le> 31"
    and time: "0 \<le> time" "time < msPerDay"
    and env: "offsets_within_a_day env"
  shows "TimeClip (UTC env (MakeDate (MakeDay y (mo - 1) d) time))
           = Some (UTC env (MakeDate (MakeDay y (mo - 1) d) time))"
proof -
  define k where "k = month_start (if DaysInYear y = 365 then 0 else 1) (mo - 1) + d - 1"
  have k: "0 \<le> k" "k < 366"
    using month_start_within_year [OF mo d, of y] DaysInYear_cases [of y]
    by (auto simp: k_def)
  have day: "MakeDay y (mo - 1) d = DayFromYear y + k"
    using MakeDay_in_year [OF mo] by (simp add: k_def)
  have "- 719528 \<le> DayFromYear y" "DayFromYear y \<le> 2932532"
    using DayFromYear_mono [OF y(1)] DayFromYear_mono [OF y(2)]
    by (simp_all add: DayFromYear_0 DayFromYear_9999)
  moreover have "\<bar>LocalTZA env (MakeDate (MakeDay y (mo - 1) d) time) False\<bar> \<le> 86400000"
    using env by (simp add: offsets_within_a_day_def msPerDay_def)
  ultimately show ?thesis
    using k time
    by (simp add: TimeClip_def UTC_def MakeDate_def day msPerDay_def)
qed

lemma days_in_month_le_31: "days_in_month y m \<le> 31"
  by (simp add: days_in_month_def)

lemma quarter_hour: "0 \<le> (mi::int) \<Longrightarrow>
  (mi \<le> 59 \<and> mi mod 15 = 0) = (mi = 0 \<or> mi = 15 \<or> mi = 30 \<or> mi = 45)"
  by presburger

subsection \<open>\<open>isValidDateTime\<close>\<close>

text \<open>The part of \<open>isValidDateTime\<close> after its variables are bound.\<close>

lemma element_pair: "element [a, b] 0 = Some a" "element [a, b] 1 = Some b"
  by (simp_all add: element_def)

lemma number_element_triple:
  "number_element [a, b, c] 0 = a" "number_element [a, b, c] 1 = b"
  "number_element [a, b, c] 2 = c"
  by (simp_all add: number_element_def)

definition validated ::
  "js_env \<Rightarrow> string \<Rightarrow> number \<Rightarrow> number \<Rightarrow> number \<Rightarrow> number \<Rightarrow> number \<Rightarrow> number
     \<Rightarrow> js_error + bool"
where
  "validated env str year month day hour minute second =
     (if js_lt month 1 \<or> js_gt month 12 then Inr False
      else if js_lt hour 0 \<or> js_gt hour 23 then Inr False
      else if js_lt minute 0 \<or> js_gt minute 59 \<or> \<not> isQuarterHour minute then Inr False
      else if js_ne second 0 then Inr False
      else
        (let date = new_Date env str in
         Inr (js_strict_eq (getFullYear env date) year
              \<and> js_strict_eq (js_plus (getMonth env date) 1) month
              \<and> js_strict_eq (getDate env date) day
              \<and> js_strict_eq (getHours env date) hour
              \<and> js_strict_eq (getMinutes env date) minute
              \<and> js_strict_eq (getSeconds env date) second)))"

lemma isValidDateTime_validated:
  assumes "matches_pattern regex s"
  shows "isValidDateTime env s =
           validated env s (Some (field_year s)) (Some (field_month s)) (Some (field_day s))
             (Some (field_hour s)) (Some (field_minute s)) (Some (field_second s))"
proof (rule regex_explicit [OF assms])
  fix y1 y2 y3 y4 m1 m2 d1 d2 h1 h2 i1 i2 s1 s2
  assume s: "s = [y1, y2, y3, y4, CHR ''-'', m1, m2, CHR ''-'', d1, d2, CHR ''T'',
          h1, h2, CHR '':'', i1, i2, CHR '':'', s1, s2]"
    and dg: "is_digit y1" "is_digit y2" "is_digit y3" "is_digit y4" "is_digit m1" "is_digit m2"
    "is_digit d1" "is_digit d2" "is_digit h1" "is_digit h2" "is_digit i1" "is_digit i2"
    "is_digit s1" "is_digit s2"
  note ns = dg [THEN digit_not_separator]
  have parts: "split CHR ''T'' s = [[y1, y2, y3, y4, CHR ''-'', m1, m2, CHR ''-'', d1, d2],
                                  [h1, h2, CHR '':'', i1, i2, CHR '':'', s1, s2]]"
    unfolding s using ns by simp
  have ymd: "split CHR ''-'' [y1, y2, y3, y4, CHR ''-'', m1, m2, CHR ''-'', d1, d2]
              = [[y1, y2, y3, y4], [m1, m2], [d1, d2]]"
    using ns by simp
  have hms: "split CHR '':'' [h1, h2, CHR '':'', i1, i2, CHR '':'', s1, s2]
              = [[h1, h2], [i1, i2], [s1, s2]]"
    using ns by simp
  have nums: "map Number [[y1, y2, y3, y4], [m1, m2], [d1, d2]]
                = [Some (field_year s), Some (field_month s), Some (field_day s)]"
             "map Number [[h1, h2], [i1, i2], [s1, s2]]
                = [Some (field_hour s), Some (field_minute s), Some (field_second s)]"
    using dg by (simp_all add: Number_def field_defs s)
  have whole: "[y1, y2, y3, y4, CHR ''-'', m1, m2, CHR ''-'', d1, d2] @ ''T''
                 @ [h1, h2, CHR '':'', i1, i2, CHR '':'', s1, s2] = s"
    by (simp add: s)
  have "isValidDateTime env s =
     (let year = Some (field_year s); month = Some (field_month s); day = Some (field_day s);
          hour = Some (field_hour s); minute = Some (field_minute s);
          second = Some (field_second s)
      in validated env s year month day hour minute second)"
    unfolding isValidDateTime_def validated_def
    using assms
    by (simp only: assms not_True_eq_False if_False Let_def parts element_pair option.case
          ymd hms nums number_element_triple whole)
  then show ?thesis by simp
qed

lemma validated_numbers:
  assumes "0 \<le> h" "0 \<le> mi"
  shows "validated env s (Some y) (Some mo) (Some d) (Some h) (Some mi) (Some sec) =
     Inr (1 \<le> mo \<and> mo \<le> 12 \<and> h \<le> 23 \<and> mi \<le> 59 \<and> mi mod 15 = 0 \<and> sec = 0
          \<and> (case new_Date env s of
                None \<Rightarrow> False
              | Some tv \<Rightarrow>
                  YearFromTime (LocalTime env tv) = y
                  \<and> MonthFromTime (LocalTime env tv) + 1 = mo
                  \<and> DateFromTime (LocalTime env tv) = d
                  \<and> HourFromTime (LocalTime env tv) = h
                  \<and> MinFromTime (LocalTime env tv) = mi
                  \<and> SecFromTime (LocalTime env tv) = sec))"
proof -
  have rem: "js_rem (Some mi) 15 = Some (mi mod 15)"
    using assms by (simp add: js_rem_def sgn_if)
  show ?thesis
  proof (cases "new_Date env s")
    case None
    then show ?thesis
      using assms
      by (simp add: validated_def js_lt_def js_gt_def js_ne_def js_strict_eq_def js_plus_def
            isQuarterHour_def rem getFullYear_def)
  next
    case (Some tv)
    then show ?thesis
      using assms
      by (simp add: validated_def js_lt_def js_gt_def js_ne_def js_strict_eq_def js_plus_def
            isQuarterHour_def rem getFullYear_def getMonth_def getDate_def getHours_def
            getMinutes_def getSeconds_def)
  qed
qed

lemma validated_total: "\<exists>b. validated env s y mo d h mi sec = Inr b"
proof -
  have "validated env s y mo d h mi sec =
     Inr (\<not> (js_lt mo 1 \<or> js_gt mo 12) \<and> \<not> (js_lt h 0 \<or> js_gt h 23)
          \<and> \<not> (js_lt mi 0 \<or> js_gt mi 59 \<or> \<not> isQuarterHour mi) \<and> \<not> js_ne sec 0
          \<and> js_strict_eq (getFullYear env (new_Date env s)) y
          \<and> js_strict_eq (js_plus (getMonth env (new_Date env s)) 1) mo
          \<and> js_strict_eq (getDate env (new_Date env s)) d
          \<and> js_strict_eq (getHours env (new_Date env s)) h
          \<and> js_strict_eq (getMinutes env (new_Date env s)) mi
          \<and> js_strict_eq (getSeconds env (new_Date env s)) sec)"
    by (simp add: validated_def Let_def)
  then show ?thesis by blast
qed

lemma isValidDateTime_total: "\<exists>b. isValidDateTime env s = Inr b"
proof (cases "matches_pattern regex s")
  case False
  then have "isValidDateTime env s = Inr False"
    by (simp add: isValidDateTime_def)
  then show ?thesis by blast
next
  case True
  show ?thesis
    unfolding isValidDateTime_validated [OF True] by (rule validated_total)
qed

lemma new_Date_fields:
  assumes "matches_pattern regex s"
    and "1 \<le> field_month s" "field_month s \<le> 12" "field_hour s \<le> 23"
    and "field_minute s \<le> 59" "field_second s \<le> 59"
  shows "new_Date env s =
     (if field_day s < 1 \<or> 31 < field_day s then None
      else TimeClip (UTC env
             (MakeDate (MakeDay (field_year s) (field_month s - 1) (field_day s))
                       (MakeTime (field_hour s) (field_minute s) (field_second s) 0))))"
  using assms by (simp add: new_Date_def Let_def field_defs [symmetric])

text \<open>On every host \<open>isValidDateTime\<close> accepts the valid date-times that the host reads
  back as written, and nothing else.\<close>

lemma local_time_written_whole_seconds:
  "local_time_written s mod 1000 = 0"
proof -
  have "local_time_written s =
      1000 * (86400 * MakeDay (field_year s) (field_month s - 1) (field_day s)
              + 3600 * field_hour s + 60 * field_minute s + field_second s)"
    by (simp add: local_time_written_def MakeDate_def MakeTime_def msPerDay_def msPerHour_def
          msPerMinute_def msPerSecond_def)
  then show ?thesis by simp
qed

lemma isValidDateTime_read_back:
  "isValidDateTime env s = Inr (valid_datetime_spec s \<and> read_back_as_written env s)"
proof (cases "matches_pattern regex s")
  case False
  then show ?thesis
    by (simp add: isValidDateTime_def valid_datetime_spec_def regex_digit_pattern)
next
  case True
  note r = fields_range [OF True]
  let ?y = "field_year s" and ?mo = "field_month s" and ?d = "field_day s"
  let ?h = "field_hour s" and ?mi = "field_minute s" and ?sec = "field_second s"
  have v: "isValidDateTime env s =
     Inr (1 \<le> ?mo \<and> ?mo \<le> 12 \<and> ?h \<le> 23 \<and> ?mi \<le> 59 \<and> ?mi mod 15 = 0 \<and> ?sec = 0
          \<and> (case new_Date env s of
                None \<Rightarrow> False
              | Some tv \<Rightarrow>
                  YearFromTime (LocalTime env tv) = ?y
                  \<and> MonthFromTime (LocalTime env tv) + 1 = ?mo
                  \<and> DateFromTime (LocalTime env tv) = ?d
                  \<and> HourFromTime (LocalTime env tv) = ?h
                  \<and> MinFromTime (LocalTime env tv) = ?mi
                  \<and> SecFromTime (LocalTime env tv) = ?sec))"
    using r(4,5) by (simp only: isValidDateTime_validated [OF True] validated_numbers)
  show ?thesis
  proof (cases "1 \<le> ?mo \<and> ?mo \<le> 12 \<and> ?h \<le> 23 \<and> ?mi \<le> 59 \<and> ?mi mod 15 = 0 \<and> ?sec = 0")
    case False
    then show ?thesis
      using r(5) quarter_hour [of ?mi] unfolding v valid_datetime_spec_def by auto
  next
    case ok: True
    then have nd: "new_Date env s =
       (if ?d < 1 \<or> 31 < ?d then None else TimeClip (UTC env (local_time_written s)))"
      unfolding local_time_written_def by (intro new_Date_fields [OF True]) simp_all
    show ?thesis
    proof (cases "?d < 1 \<or> 31 < ?d")
      case True
      then have "\<not> (1 \<le> ?d \<and> ?d \<le> days_in_month ?y ?mo)"
        using days_in_month_le_31 [of ?y ?mo] by linarith
      then have "\<not> valid_datetime_spec s"
        by (simp add: valid_datetime_spec_def)
      then show ?thesis
        using True unfolding v nd by simp
    next
      case False
      then have d: "1 \<le> ?d" "?d \<le> 31" by simp_all
      from ok have mo: "1 \<le> ?mo" "?mo \<le> 12" by simp_all
      from ok r have hms: "0 \<le> ?h" "?h \<le> 23" "0 \<le> ?mi" "?mi \<le> 59" "0 \<le> ?sec" "?sec \<le> 59"
        by simp_all
      have pat: "digit_pattern CHR ''T'' s"
        using True by (simp add: regex_digit_pattern)
      have valid: "valid_datetime_spec s = (?d \<le> days_in_month ?y ?mo)"
        using ok d hms pat quarter_hour [of ?mi] unfolding valid_datetime_spec_def by simp
      have nd': "new_Date env s = TimeClip (UTC env (local_time_written s))"
        using False by (simp add: nd)
      show ?thesis
      proof (cases "TimeClip (UTC env (local_time_written s))")
        case None
        then show ?thesis
          unfolding v nd' read_back_as_written_def by simp
      next
        case (Some tv)
        define t where "t = LocalTime env tv"
        have rb: "read_back_as_written env s = (t div 1000 = local_time_written s div 1000)"
          by (simp add: read_back_as_written_def Some t_def msPerSecond_def)
        have "(YearFromTime t = ?y \<and> MonthFromTime t + 1 = ?mo \<and> DateFromTime t = ?d
               \<and> HourFromTime t = ?h \<and> MinFromTime t = ?mi \<and> SecFromTime t = ?sec)
            = (?d \<le> days_in_month ?y ?mo \<and> t div 1000 = local_time_written s div 1000)"
          (is "?fields = ?rhs")
        proof
          assume f: ?fields
          then have mo1: "?mo - 1 = MonthFromTime t" by simp
          have "local_time_written s =
              MakeDate (MakeDay (YearFromTime t) (MonthFromTime t) (DateFromTime t))
                (MakeTime (HourFromTime t) (MinFromTime t) (SecFromTime t) 0)"
            unfolding local_time_written_def mo1 using f by simp
          then have "local_time_written s = t - t mod 1000"
            by (simp only: day_of_its_fields time_of_its_fields)
          then have "local_time_written s div 1000 = t div 1000"
            by (simp add: minus_mod_eq_mult_div)
          moreover have "?d \<le> days_in_month ?y ?mo"
            using date_in_its_month [of t] f by auto
          ultimately show ?rhs by simp
        next
          assume rhs: ?rhs
          define ms where "ms = t mod 1000"
          have ms: "0 \<le> ms" "ms < 1000" by (simp_all add: ms_def)
          have "t = 1000 * (t div 1000) + ms" by (simp add: ms_def)
          also have "1000 * (t div 1000) = local_time_written s"
            using rhs local_time_written_whole_seconds [of s]
              mult_div_mod_eq [of 1000 "local_time_written s"]
            by simp
          finally have t: "t = MakeDate (MakeDay ?y (?mo - 1) ?d) (MakeTime ?h ?mi ?sec 0 + ms)"
            by (simp add: local_time_written_def MakeDate_def)
          note tf = time_fields_ms [OF hms ms]
          note cf = calendar_fields [OF mo d tf(4,5), of ?y]
          from rhs cf(2) have "MonthFromTime t + 1 = ?mo \<and> DateFromTime t = ?d"
            unfolding t by blast
          then show ?fields
            unfolding t by (simp only: cf(1) tf(1-3) simp_thms)
        qed
        then show ?thesis
          unfolding v nd' Some option.case t_def [symmetric] rb valid
          using ok by simp
      qed
    qed
  qed
qed

lemma read_back_round_trip:
  assumes valid: "valid_datetime_spec s" and off: "offsets_within_a_day env"
    and trip: "LocalTime env (UTC env (local_time_written s)) = local_time_written s"
  shows "read_back_as_written env s"
proof -
  have m: "matches_pattern regex s"
    using valid by (simp add: valid_datetime_spec_def regex_digit_pattern)
  note r = fields_range [OF m]
  let ?y = "field_year s" and ?mo = "field_month s" and ?d = "field_day s"
  let ?h = "field_hour s" and ?mi = "field_minute s" and ?sec = "field_second s"
  have y: "0 \<le> ?y" "?y \<le> 9999" using r(1) by simp_all
  have mo: "1 \<le> ?mo" "?mo \<le> 12" using valid by (simp_all add: valid_datetime_spec_def)
  have d: "1 \<le> ?d" "?d \<le> 31"
    using valid days_in_month_le_31 [of ?y ?mo] by (auto simp: valid_datetime_spec_def)
  have hms: "0 \<le> ?h" "?h \<le> 23" "0 \<le> ?mi" "?mi \<le> 59" "0 \<le> ?sec" "?sec \<le> 59"
    using valid by (auto simp: valid_datetime_spec_def)
  note tf = time_fields [OF hms]
  have "TimeClip (UTC env (local_time_written s)) = Some (UTC env (local_time_written s))"
    unfolding local_time_written_def by (rule TimeClip_local [OF y mo d tf(4,5) off])
  then show ?thesis
    by (simp add: read_back_as_written_def trip)
qed

lemma isValidDateTime_spec_at:
  assumes "offsets_within_a_day env"
    and "LocalTime env (UTC env (local_time_written s)) = local_time_written s"
  shows "isValidDateTime env s = Inr (valid_datetime_spec s)"
  using read_back_round_trip [OF _ assms] by (auto simp: isValidDateTime_read_back)

lemma isValidDateTime_spec:
  assumes skip: "no_skipped_local_time env" and off: "offsets_within_a_day env"
  shows "isValidDateTime env s = Inr (valid_datetime_spec s)"
  using skip by (intro isValidDateTime_spec_at [OF off]) (simp add: no_skipped_local_time_def)

lemma february_30_rejected: "isValidDateTime env ''2024-02-30T12:00:00'' = Inr False"
proof -
  let ?s = "''2024-02-30T12:00:00''"
  have m: "matches_pattern regex ?s"
    by (simp add: regex_def matches_pattern_def is_digit_def)
  have f: "field_month ?s = 2" "field_day ?s = 30" "field_hour ?s = 12" "field_minute ?s = 0"
    by (simp_all add: field_defs digits_value_def digit_value_def)
  have "\<not> (MonthFromTime t + 1 = 2 \<and> DateFromTime t = 30)" for t
    using no_february_30 [of t] by auto
  then show ?thesis
    unfolding isValidDateTime_validated [OF m] f
    by (subst validated_numbers) (auto split: option.splits)
qed

subsection \<open>The order of instants\<close>

lemma month_start_mono:
  assumes "0 \<le> a" "a \<le> b" "b \<le> 11" "0 \<le> L"
  shows "month_start L a \<le> month_start L b"
proof -
  have a: "a = 0 \<or> a = 1 \<or> a = 2 \<or> a = 3 \<or> a = 4 \<or> a = 5 \<or> a = 6 \<or> a = 7 \<or> a = 8
      \<or> a = 9 \<or> a = 10 \<or> a = 11"
    using assms by arith
  have b: "b = 0 \<or> b = 1 \<or> b = 2 \<or> b = 3 \<or> b = 4 \<or> b = 5 \<or> b = 6 \<or> b = 7 \<or> b = 8
      \<or> b = 9 \<or> b = 10 \<or> b = 11"
    using assms by arith
  from a b assms(2,4) show ?thesis
    by (elim disjE) (simp_all add: month_start_def)
qed

lemma month_start_next:
  assumes "1 \<le> mo" "mo \<le> 11"
  shows "month_start (if DaysInYear y = 365 then 0 else 1) (mo - 1) + days_in_month y mo
           = month_start (if DaysInYear y = 365 then 0 else 1) mo"
proof -
  have "mo = 1 \<or> mo = 2 \<or> mo = 3 \<or> mo = 4 \<or> mo = 5 \<or> mo = 6 \<or> mo = 7 \<or> mo = 8 \<or> mo = 9
      \<or> mo = 10 \<or> mo = 11"
    using assms by arith
  then show ?thesis
    using DaysInYear_cases [of y]
    by (elim disjE) (auto simp: month_start_def days_in_month_def leap_year_DaysInYear)
qed


lemma MakeDay_in_its_year:
  assumes mo: "1 \<le> mo" "mo \<le> 12" and d: "1 \<le> d" "d \<le> days_in_month y mo"
  shows "DayFromYear y \<le> MakeDay y (mo - 1) d" and "MakeDay y (mo - 1) d < DayFromYear (y + 1)"
proof -
  have "d \<le> 31" using d(2) days_in_month_le_31 [of y mo] by linarith
  from month_start_within_year [OF mo d(1) this, of y] MakeDay_in_year [OF mo, of y d]
  show "DayFromYear y \<le> MakeDay y (mo - 1) d" and "MakeDay y (mo - 1) d < DayFromYear (y + 1)"
    by (simp_all add: DayFromYear_next)
qed

lemma MakeDay_strict_mono:
  assumes mo1: "1 \<le> mo1" "mo1 \<le> 12" and d1: "1 \<le> d1" "d1 \<le> days_in_month y1 mo1"
    and mo2: "1 \<le> mo2" "mo2 \<le> 12" and d2: "1 \<le> d2" "d2 \<le> days_in_month y2 mo2"
    and less: "y1 < y2 \<or> y1 = y2 \<and> (mo1 < mo2 \<or> mo1 = mo2 \<and> d1 < d2)"
  shows "MakeDay y1 (mo1 - 1) d1 < MakeDay y2 (mo2 - 1) d2"
proof -
  consider "y1 < y2" | "y1 = y2" "mo1 < mo2" | "y1 = y2" "mo1 = mo2" "d1 < d2"
    using less by blast
  then show ?thesis
  proof cases
    case 1
    then have "DayFromYear (y1 + 1) \<le> DayFromYear y2"
      by (intro DayFromYear_mono) simp
    then show ?thesis
      using MakeDay_in_its_year(2) [OF mo1 d1] MakeDay_in_its_year(1) [OF mo2 d2] by linarith
  next
    case 2
    let ?L = "if DaysInYear y1 = 365 then 0 else 1 :: int"
    have "mo1 \<le> 11" using 2(2) mo2(2) by linarith
    from month_start_next [OF mo1(1) this, of y1]
    have "month_start ?L (mo1 - 1) + d1 \<le> month_start ?L mo1"
      using d1(2) by linarith
    moreover have "month_start ?L mo1 \<le> month_start ?L (mo2 - 1)"
      using mo1 mo2 2(2) by (intro month_start_mono) simp_all
    ultimately show ?thesis
      using MakeDay_in_year [OF mo1, of y1 d1] MakeDay_in_year [OF mo2, of y2 d2] d2(1) 2(1)
      by simp
  next
    case 3
    then show ?thesis
      using MakeDay_in_year [OF mo1, of y1 d1] MakeDay_in_year [OF mo2, of y2 d2] by simp
  qed
qed

lemma MakeTime_strict_mono:
  assumes "0 \<le> h1" "0 \<le> mi1" "mi1 \<le> 59" "0 \<le> s1" "s1 \<le> 59"
    and "0 \<le> h2" "0 \<le> mi2" "mi2 \<le> 59" "0 \<le> s2" "s2 \<le> 59"
    and "h1 < h2 \<or> h1 = h2 \<and> (mi1 < mi2 \<or> mi1 = mi2 \<and> s1 < s2)"
  shows "MakeTime h1 mi1 s1 0 < MakeTime h2 mi2 s2 0"
  using assms
  by (auto simp: MakeTime_def msPerHour_def msPerMinute_def msPerSecond_def)


lemma lexordp_6:
  fixes a1 :: int
  shows "ord_class.lexordp [a1, b1, c1, d1, e1, f1] [a2, b2, c2, d2, e2, f2] \<longleftrightarrow>
     a1 < a2 \<or> a1 = a2 \<and> (b1 < b2 \<or> b1 = b2 \<and> (c1 < c2 \<or> c1 = c2 \<and>
       (d1 < d2 \<or> d1 = d2 \<and> (e1 < e2 \<or> e1 = e2 \<and> f1 < f2))))"
  by auto

lemma local_time_strict_mono:
  assumes mo1: "1 \<le> mo1" "mo1 \<le> 12" and d1: "1 \<le> d1" "d1 \<le> days_in_month y1 mo1"
    and t1: "0 \<le> h1" "h1 \<le> 23" "0 \<le> mi1" "mi1 \<le> 59" "0 \<le> s1" "s1 \<le> 59"
    and mo2: "1 \<le> mo2" "mo2 \<le> 12" and d2: "1 \<le> d2" "d2 \<le> days_in_month y2 mo2"
    and t2: "0 \<le> h2" "h2 \<le> 23" "0 \<le> mi2" "mi2 \<le> 59" "0 \<le> s2" "s2 \<le> 59"
    and less: "ord_class.lexordp [y1, mo1, d1, h1, mi1, s1] [y2, mo2, d2, h2, mi2, s2]"
  shows "MakeDate (MakeDay y1 (mo1 - 1) d1) (MakeTime h1 mi1 s1 0)
       < MakeDate (MakeDay y2 (mo2 - 1) d2) (MakeTime h2 mi2 s2 0)"
proof -
  note b1 = time_fields(4,5) [OF t1] and b2 = time_fields(4,5) [OF t2]
  consider (date) "y1 < y2 \<or> y1 = y2 \<and> (mo1 < mo2 \<or> mo1 = mo2 \<and> d1 < d2)"
    | (time) "y1 = y2" "mo1 = mo2" "d1 = d2"
        "h1 < h2 \<or> h1 = h2 \<and> (mi1 < mi2 \<or> mi1 = mi2 \<and> s1 < s2)"
    using less unfolding lexordp_6 by blast
  then show ?thesis
  proof cases
    case date
    from MakeDay_strict_mono [OF mo1 d1 mo2 d2 date]
    have "MakeDay y1 (mo1 - 1) d1 + 1 \<le> MakeDay y2 (mo2 - 1) d2" by simp
    then have "(MakeDay y1 (mo1 - 1) d1 + 1) * 86400000 \<le> MakeDay y2 (mo2 - 1) d2 * 86400000"
      by simp
    then show ?thesis
      using b1 b2 by (simp add: MakeDate_def msPerDay_def)
  next
    case time
    from MakeTime_strict_mono [OF t1(1,3-6) t2(1,3-6) time(4)] time(1-3)
    show ?thesis by (simp add: MakeDate_def)
  qed
qed

lemma lexordp_trichotomy_6:
  fixes a1 :: int
  shows "[a1, b1, c1, d1, e1, f1] = [a2, b2, c2, d2, e2, f2]
       \<or> ord_class.lexordp [a1, b1, c1, d1, e1, f1] [a2, b2, c2, d2, e2, f2]
       \<or> ord_class.lexordp [a2, b2, c2, d2, e2, f2] [a1, b1, c1, d1, e1, f1]"
  unfolding lexordp_6 by auto

lemma calendar_datetime_fields:
  assumes "calendar_datetime s"
  shows "matches_pattern regex s"
    and "1 \<le> field_month s" "field_month s \<le> 12"
    and "1 \<le> field_day s" "field_day s \<le> days_in_month (field_year s) (field_month s)"
    and "0 \<le> field_hour s" "field_hour s \<le> 23" "0 \<le> field_minute s" "field_minute s \<le> 59"
      "0 \<le> field_second s" "field_second s \<le> 59"
    and "0 \<le> field_year s" "field_year s \<le> 9999"
proof -
  show m: "matches_pattern regex s"
    using assms by (simp add: calendar_datetime_def regex_digit_pattern)
  from fields_range [OF m] assms
  show "1 \<le> field_month s" "field_month s \<le> 12"
    and "1 \<le> field_day s" "field_day s \<le> days_in_month (field_year s) (field_month s)"
    and "0 \<le> field_hour s" "field_hour s \<le> 23" "0 \<le> field_minute s" "field_minute s \<le> 59"
      "0 \<le> field_second s" "field_second s \<le> 59"
    and "0 \<le> field_year s" "field_year s \<le> 9999"
    by (simp_all add: calendar_datetime_def)
qed

lemma new_Date_calendar_datetime:
  assumes c: "calendar_datetime s" and off: "offsets_within_a_day env"
  shows "new_Date env s =
     Some (UTC env (MakeDate (MakeDay (field_year s) (field_month s - 1) (field_day s))
                     (MakeTime (field_hour s) (field_minute s) (field_second s) 0)))"
proof -
  note f = calendar_datetime_fields [OF c]
  have d31: "field_day s \<le> 31"
    using f(5) days_in_month_le_31 [of "field_year s" "field_month s"] by linarith
  note tf = time_fields(4,5) [OF f(6-11)]
  show ?thesis
    using new_Date_fields [OF f(1,2,3,7,9,11), of env] f(4) d31
      TimeClip_local [OF f(12,13) f(2,3) f(4) d31 tf off]
    by simp
qed

text \<open>On a host with a fixed offset the instants of two date-times are ordered as the
  date-times are written, field by field from the year to the second.\<close>

lemma instants_ordered_as_written:
  assumes c1: "calendar_datetime s1" and c2: "calendar_datetime s2"
    and off: "offsets_within_a_day env" and fixed: "\<And>t. LocalTZA env t False = c"
    and n1: "new_Date env s1 = Some a1" and n2: "new_Date env s2 = Some a2"
  shows "(a1 < a2 \<longleftrightarrow> ord_class.lexordp (written_fields s1) (written_fields s2))
       \<and> (a1 = a2 \<longleftrightarrow> written_fields s1 = written_fields s2)"
proof -
  note f1 = calendar_datetime_fields [OF c1] and f2 = calendar_datetime_fields [OF c2]
  let ?l1 = "MakeDate (MakeDay (field_year s1) (field_month s1 - 1) (field_day s1))
               (MakeTime (field_hour s1) (field_minute s1) (field_second s1) 0)"
  let ?l2 = "MakeDate (MakeDay (field_year s2) (field_month s2 - 1) (field_day s2))
               (MakeTime (field_hour s2) (field_minute s2) (field_second s2) 0)"
  have a: "a1 = ?l1 - c" "a2 = ?l2 - c"
    using new_Date_calendar_datetime [OF c1 off] new_Date_calendar_datetime [OF c2 off] n1 n2
    by (simp_all add: UTC_def fixed)
  have up: "ord_class.lexordp (written_fields s1) (written_fields s2) \<Longrightarrow> ?l1 < ?l2"
    unfolding written_fields_def
    by (rule local_time_strict_mono [OF f1(2-11) f2(2-11)])
  have down: "ord_class.lexordp (written_fields s2) (written_fields s1) \<Longrightarrow> ?l2 < ?l1"
    unfolding written_fields_def
    by (rule local_time_strict_mono [OF f2(2-11) f1(2-11)])
  have same: "written_fields s1 = written_fields s2 \<Longrightarrow> ?l1 = ?l2"
    by (simp add: written_fields_def)
  have tri: "written_fields s1 = written_fields s2
       \<or> ord_class.lexordp (written_fields s1) (written_fields s2)
       \<or> ord_class.lexordp (written_fields s2) (written_fields s1)"
    unfolding written_fields_def by (rule lexordp_trichotomy_6)
  show ?thesis
    unfolding a using up down same tri by force
qed

subsection \<open>\<open>isDateTimeInRange\<close> and \<open>getReservations\<close>\<close>

lemma isDateTimeInRange_valid:
  assumes "new_Date env t = Some a" "new_Date env s = Some b" "new_Date env e = Some c"
  shows "isDateTimeInRange env t s e = Inr (b \<le> a \<and> a \<le> c)"
  using assms by (simp add: isDateTimeInRange_def isNaN_def js_ge_def js_le_def)

lemma isDateTimeInRange_throws:
  "isDateTimeInRange env t s e = Inl InvalidDateError
     \<longleftrightarrow> isNaN (new_Date env t) \<or> isNaN (new_Date env s) \<or> isNaN (new_Date env e)"
  by (simp add: isDateTimeInRange_def Let_def)

lemma getReservations_fails_fast:
  assumes "isValidDateTime env a \<noteq> Inr True \<or> isValidDateTime env b \<noteq> Inr True"
  shows "getReservations env net a b = ([], Inl InvalidDateError)"
proof -
  obtain va vb where "isValidDateTime env a = Inr va" "isValidDateTime env b = Inr vb"
    using isValidDateTime_total by blast
  with assms show ?thesis
    by (auto simp: getReservations_def)
qed

lemma getReservations_no_RangeError: "snd (getReservations env net a b) \<noteq> Inl RangeError"
proof -
  obtain va vb where "isValidDateTime env a = Inr va" "isValidDateTime env b = Inr vb"
    using isValidDateTime_total by blast
  then show ?thesis
    by (auto simp: getReservations_def Let_def split: fetch_outcome.splits option.splits)
qed

subsection \<open>The example hosts\<close>

lemma new_york_march_2024_times:
  "MakeDate (MakeDay 2024 2 10) (MakeTime 7 0 0 0) = 1710054000000"
  "MakeDate (MakeDay 2024 2 10) (MakeTime 3 0 0 0) = 1710039600000"
  by (simp_all add: MakeDate_def MakeDay_def MakeTime_def DayFromYear_def DaysInYear_def
        month_start_def msPerDay_def msPerHour_def msPerMinute_def msPerSecond_def)

lemma new_york_march_2024_skips: "\<not> no_skipped_local_time new_york_march_2024"
proof
  assume "no_skipped_local_time new_york_march_2024"
  then have "LocalTime new_york_march_2024 (UTC new_york_march_2024 1710037800000) = 1710037800000"
    unfolding no_skipped_local_time_def by blast
  then show False
    by (simp add: LocalTime_def UTC_def new_york_march_2024_def)
qed

lemma new_york_march_2024_not_read_back:
  "\<not> read_back_as_written new_york_march_2024 ''2024-03-10T02:30:00''"
  by code_simp

lemma utc_zone_no_skipped_local_time: "no_skipped_local_time utc_zone"
  by (simp add: no_skipped_local_time_def LocalTime_def UTC_def utc_zone_def)

lemma utc_zone_offsets_within_a_day: "offsets_within_a_day utc_zone"
  by (simp add: offsets_within_a_day_def utc_zone_def msPerDay_def)

section \<open>The claims about the date-time utilities\<close>

text \<open>
  Claim C2: for every input string, the date-time validator accepts it exactly when it
  matches the digit pattern \<open>YYYY-MM-DDTHH:MM:SS\<close> with the month in 1 to 12, the hour in
  0 to 23, the minute one of 0, 15, 30, 45, the second 0, and the date a real calendar
  date; \<open>2024-02-30T12:00:00\<close> is rejected. The validator reads the string as a local
  time and compares what the \<open>Date\<close> gives back, the hour included. On a host in New
  York, \<open>2024-03-10T02:30:00\<close> meets every condition of the claim, and the validator
  rejects it: that local time is skipped, the \<open>Date\<close> is the instant 07:30 UTC, which is
  03:30 local time, and \<open>getHours()\<close> answers 3 where the string says 2.
\<close>

theorem isValidDateTime_rejects_a_skipped_local_time:
  "valid_datetime_spec ''2024-03-10T02:30:00''
   \<and> isValidDateTime new_york_march_2024 ''2024-03-10T02:30:00'' = Inr False
   \<and> new_Date new_york_march_2024 ''2024-03-10T02:30:00'' = Some 1710055800000
   \<and> getHours new_york_march_2024 (Some 1710055800000) = Some 3"
  by code_simp

text \<open>
  Claim C2, amended: for every input string, on every host, the validator accepts it
  exactly when it is a valid date-time in the sense of the claim and the host reads it
  back as written. The host does so whenever its offsets stay within a day and the local
  time the string names is the local time of the instant it is read as, which is every
  local time that no forward clock change skips: there the validator accepts the string
  exactly when it is a valid date-time in the sense of the claim. \<open>2024-02-30T12:00:00\<close>
  is not one and is rejected on every host.
\<close>

theorem isValidDateTime_accepts_what_is_valid_and_read_back:
  "isValidDateTime env s = Inr (valid_datetime_spec s \<and> read_back_as_written env s)
   \<and> (offsets_within_a_day env
        \<and> LocalTime env (UTC env (local_time_written s)) = local_time_written s
      \<longrightarrow> isValidDateTime env s = Inr (valid_datetime_spec s))
   \<and> \<not> valid_datetime_spec ''2024-02-30T12:00:00''
   \<and> isValidDateTime env ''2024-02-30T12:00:00'' = Inr False"
proof -
  have "\<not> valid_datetime_spec ''2024-02-30T12:00:00''"
    by (simp add: valid_datetime_spec_def field_defs digits_value_def digit_value_def
          days_in_month_def)
  then show ?thesis
    using isValidDateTime_read_back [of env s] isValidDateTime_spec_at [of env s]
      february_30_rejected [of env]
    by simp
qed

theorem isValidDateTime_accepts_what_is_valid_and_read_back_witness:
  "offsets_within_a_day new_york_march_2024
   \<and> LocalTime new_york_march_2024
       (UTC new_york_march_2024 (local_time_written ''2024-03-09T18:15:00''))
     = local_time_written ''2024-03-09T18:15:00''
   \<and> valid_datetime_spec ''2024-03-09T18:15:00''
   \<and> read_back_as_written new_york_march_2024 ''2024-03-09T18:15:00''
   \<and> isValidDateTime new_york_march_2024 ''2024-03-09T18:15:00'' = Inr True
   \<and> \<not> valid_datetime_spec ''2024-02-30T12:00:00''
   \<and> isValidDateTime new_york_march_2024 ''2024-02-30T12:00:00'' = Inr False"
proof -
  let ?s = "''2024-03-09T18:15:00''"
  have off: "offsets_within_a_day new_york_march_2024"
    by (simp add: offsets_within_a_day_def new_york_march_2024_def msPerDay_def)
  have t: "local_time_written ?s = 1710008100000"
    by (simp add: local_time_written_def field_defs digits_value_def digit_value_def
          MakeDate_def MakeDay_def MakeTime_def DayFromYear_def DaysInYear_def
          month_start_def msPerDay_def msPerHour_def msPerMinute_def msPerSecond_def)
  have trip: "LocalTime new_york_march_2024 (UTC new_york_march_2024 (local_time_written ?s))
                = local_time_written ?s"
    unfolding t by (simp add: LocalTime_def UTC_def new_york_march_2024_def)
  have v: "valid_datetime_spec ?s"
    by (simp add: valid_datetime_spec_def digit_pattern_def is_digit_def field_defs
          digits_value_def digit_value_def days_in_month_def leap_year_def)
  show ?thesis
    using isValidDateTime_accepts_what_is_valid_and_read_back [of new_york_march_2024 ?s]
      off trip v
    by auto
qed

text \<open>
  Claim C5: the time-range query validates both date-times first and fails with a format
  error before it contacts the data source, and it surfaces three kinds of error: a
  format error, an out-of-range error, and a connectivity error when the data source
  cannot be reached. \<open>getReservations\<close> has no range check: no input makes it throw the
  \<open>RangeError\<close> its documentation announces. The widest range there is, year 0 to year
  9999, goes to the data source and the call ends normally. When the data source cannot
  be reached the error is the \<open>TypeError\<close> of \<open>fetch\<close>; the \<open>APIError\<close> is thrown for a
  response that is not \<open>ok\<close>.
\<close>

theorem getReservations_throws_no_RangeError:
  "snd (getReservations env net startDateTime endDateTime) \<noteq> Inl RangeError
   \<and> getReservations utc_zone answering ''0000-01-01T00:00:00'' ''9999-12-31T23:45:00''
       = ([Fetched (''http://localhost:5000/get-reservations?startDateTime=0000-01-01T00:00:00''
                    @ ''&endDateTime=9999-12-31T23:45:00''),
           ConsoleLog ''[]''],
          Inr ())
   \<and> snd (getReservations utc_zone unreachable ''2024-06-01T18:00:00'' ''2024-06-01T20:00:00'')
       = Inl TypeError
   \<and> snd (getReservations utc_zone refusing ''2024-06-01T18:00:00'' ''2024-06-01T20:00:00'')
       = Inl APIError"
proof -
  have "valid_datetime_spec ''0000-01-01T00:00:00''" "valid_datetime_spec ''9999-12-31T23:45:00''"
    "valid_datetime_spec ''2024-06-01T18:00:00''" "valid_datetime_spec ''2024-06-01T20:00:00''"
    by (simp_all add: valid_datetime_spec_def digit_pattern_def is_digit_def field_defs
          digits_value_def digit_value_def days_in_month_def leap_year_def)
  then have v: "isValidDateTime utc_zone ''0000-01-01T00:00:00'' = Inr True"
    "isValidDateTime utc_zone ''9999-12-31T23:45:00'' = Inr True"
    "isValidDateTime utc_zone ''2024-06-01T18:00:00'' = Inr True"
    "isValidDateTime utc_zone ''2024-06-01T20:00:00'' = Inr True"
    by (simp_all add: isValidDateTime_spec utc_zone_no_skipped_local_time
          utc_zone_offsets_within_a_day)
  have "getReservations utc_zone answering ''0000-01-01T00:00:00'' ''9999-12-31T23:45:00''
       = ([Fetched (''http://localhost:5000/get-reservations?startDateTime=0000-01-01T00:00:00''
                    @ ''&endDateTime=9999-12-31T23:45:00''),
           ConsoleLog ''[]''],
          Inr ())"
    by (simp add: getReservations_def v answering_def)
  moreover have
    "snd (getReservations utc_zone unreachable ''2024-06-01T18:00:00'' ''2024-06-01T20:00:00'')
       = Inl TypeError"
    by (simp add: getReservations_def v unreachable_def)
  moreover have
    "snd (getReservations utc_zone refusing ''2024-06-01T18:00:00'' ''2024-06-01T20:00:00'')
       = Inl APIError"
    by (simp add: getReservations_def v refusing_def)
  ultimately show ?thesis
    using getReservations_no_RangeError [of env net startDateTime endDateTime] by simp
qed

text \<open>
  Claim C9: for date-time strings \<open>t\<close>, \<open>s\<close>, \<open>e\<close> that parse to valid dates, the range
  check answers true exactly when \<open>s \<le> t\<close> and \<open>t \<le> e\<close> in time; both ends belong to the
  range. With \<open>a\<close>, \<open>b\<close>, \<open>c\<close> the instants of \<open>t\<close>, \<open>s\<close>, \<open>e\<close>: the check answers
  \<open>b \<le> a \<and> a \<le> c\<close>, and the start and the end of a range are in it whenever the range
  is not empty. (On a host with a fixed offset the instants of date-times that exist are
  ordered as the date-times are written: lemma \<open>instants_ordered_as_written\<close>.)
\<close>

theorem isDateTimeInRange_is_the_closed_range:
  assumes "new_Date env t = Some a" and "new_Date env s = Some b" and "new_Date env e = Some c"
  shows "isDateTimeInRange env t s e = Inr (b \<le> a \<and> a \<le> c)
       \<and> isDateTimeInRange env s s e = Inr (b \<le> c)
       \<and> isDateTimeInRange env e s e = Inr (b \<le> c)"
  using isDateTimeInRange_valid [OF assms] isDateTimeInRange_valid [OF assms(2) assms(2) assms(3)]
    isDateTimeInRange_valid [OF assms(3) assms(2) assms(3)]
  by simp

theorem isDateTimeInRange_is_the_closed_range_witness:
  "new_Date utc_zone ''2024-06-01T18:15:00'' = Some 1717265700000
   \<and> new_Date utc_zone ''2024-06-01T18:00:00'' = Some 1717264800000
   \<and> new_Date utc_zone ''2024-06-01T20:00:00'' = Some 1717272000000
   \<and> isDateTimeInRange utc_zone ''2024-06-01T18:15:00'' ''2024-06-01T18:00:00''
         ''2024-06-01T20:00:00'' = Inr True
   \<and> isDateTimeInRange utc_zone ''2024-06-01T18:00:00'' ''2024-06-01T18:00:00''
         ''2024-06-01T20:00:00'' = Inr True
   \<and> isDateTimeInRange utc_zone ''2024-06-01T20:00:00'' ''2024-06-01T18:00:00''
         ''2024-06-01T20:00:00'' = Inr True"
proof -
  have t: "new_Date utc_zone ''2024-06-01T18:15:00'' = Some 1717265700000"
    by code_simp
  have s: "new_Date utc_zone ''2024-06-01T18:00:00'' = Some 1717264800000"
    by code_simp
  have e: "new_Date utc_zone ''2024-06-01T20:00:00'' = Some 1717272000000"
    by code_simp
  show ?thesis
    using isDateTimeInRange_is_the_closed_range [OF t s e] t s e by simp
qed

text \<open>
  Claim C10: the date-time validator is total and never throws: for every input string,
  the empty string and strings that are no dates included, \<open>isValidDateTime\<close> returns a
  boolean; the range check, unlike it, throws on input that does not parse. For every
  host and every string the validator returns; the range check throws its
  \<open>InvalidDateError\<close> exactly when one of its three strings gives an invalid date.
\<close>

theorem isValidDateTime_returns_a_boolean:
  "(\<exists>b. isValidDateTime env str = Inr b)
   \<and> isValidDateTime env '''' = Inr False
   \<and> isValidDateTime env ''next Friday'' = Inr False
   \<and> (isDateTimeInRange env t s e = Inl InvalidDateError
        \<longleftrightarrow> isNaN (new_Date env t) \<or> isNaN (new_Date env s) \<or> isNaN (new_Date env e))"
proof -
  have "\<not> matches_pattern regex ''''" "\<not> matches_pattern regex ''next Friday''"
    by (simp_all add: matches_pattern_def regex_def)
  then have "isValidDateTime env '''' = Inr False"
    "isValidDateTime env ''next Friday'' = Inr False"
    by (simp_all add: isValidDateTime_def)
  then show ?thesis
    using isValidDateTime_total [of env str] isDateTimeInRange_throws [of env t s e] by simp
qed

theorem isValidDateTime_returns_a_boolean_witness:
  "isValidDateTime utc_zone ''2024-06-01T18:15:00'' = Inr True
   \<and> isValidDateTime utc_zone '''' = Inr False
   \<and> isNaN (new_Date utc_zone ''next Friday'')
   \<and> isDateTimeInRange utc_zone ''next Friday'' ''2024-06-01T18:00:00'' ''2024-06-01T20:00:00''
       = Inl InvalidDateError"
proof -
  have "valid_datetime_spec ''2024-06-01T18:15:00''"
    by (simp add: valid_datetime_spec_def digit_pattern_def is_digit_def field_defs
          digits_value_def digit_value_def days_in_month_def)
  then have a: "isValidDateTime utc_zone ''2024-06-01T18:15:00'' = Inr True"
    by (simp add: isValidDateTime_spec utc_zone_no_skipped_local_time
          utc_zone_offsets_within_a_day)
  have n: "isNaN (new_Date utc_zone ''next Friday'')"
    by (simp add: isNaN_def new_Date_def matches_pattern_def regex_def utc_zone_def)
  show ?thesis
    using isValidDateTime_returns_a_boolean
            [of utc_zone "''2024-06-01T18:15:00''" "''next Friday''" "''2024-06-01T18:00:00''"
                "''2024-06-01T20:00:00''"]
      a n
    by simp
qed

end
